theory Spec2Isabelle
  imports Main "HOL-Library.AList"
begin

section \<open>Go values used by the client\<close>

text \<open>
  The package under study is the EPO BDDS client (\<^verbatim>\<open>types.go\<close>, \<^verbatim>\<open>errors.go\<close>,
  \<^verbatim>\<open>utils.go\<close>).  Strings are byte strings, as in Go.  A Go \<^verbatim>\<open>int\<close> is represented by
  an \<^typ>\<open>int\<close>; where 64-bit arithmetic can leave its range after a single step,
  in the nanosecond counts handed to \<^verbatim>\<open>time.Sleep\<close> and to the HTTP client's time-out,
  it is computed with the wrap-around written out (\<open>wrap64\<close>).
\<close>

definition wrap64 :: "int \<Rightarrow> int" where
  "wrap64 x = (x + 2 ^ 63) mod 2 ^ 64 - 2 ^ 63"

text \<open>\<^verbatim>\<open>time.Duration\<close> counts nanoseconds in an int64; \<^verbatim>\<open>time.Time\<close> is an instant,
  here the nanoseconds since the zero \<^verbatim>\<open>time.Time{}\<close>.\<close>

type_synonym Duration = int
type_synonym Time = int

definition Second :: Duration where
  "Second = 1000000000"

definition Minute :: Duration where
  "Minute = 60 * Second"

definition Hour :: Duration where
  "Hour = 60 * Minute"

definition tokenTTL :: Duration where
  "tokenTTL = Hour"

definition tokenRefreshBuffer :: Duration where
  "tokenRefreshBuffer = 5 * Minute"

text \<open>\<^verbatim>\<open>time.Duration(n) * time.Second\<close> for a Go \<^verbatim>\<open>int\<close> \<open>n\<close>: an int64 product.\<close>

definition seconds :: "int \<Rightarrow> Duration" where
  "seconds n = wrap64 (wrap64 n * Second)"

subsection \<open>Decimal formatting (\<^verbatim>\<open>%d\<close>)\<close>

fun digits :: "nat \<Rightarrow> string" where
  "digits n = (if n < 10 then [''0123456789'' ! n]
               else digits (n div 10) @ [''0123456789'' ! (n mod 10)])"

declare digits.simps [simp del]

definition itoa :: "int \<Rightarrow> string" where
  "itoa i = (if i < 0 then CHR ''-'' # digits (nat (- i)) else digits (nat i))"

subsection \<open>Errors (\<^verbatim>\<open>errors.go\<close>, \<^verbatim>\<open>fmt.Errorf\<close>)\<close>

text \<open>
  \<open>AuthError\<close>, \<open>NotFoundError\<close> and \<open>RateLimitError\<close> are the three error structs of
  \<^verbatim>\<open>errors.go\<close>.  \<open>ErrorString\<close> is an error that only has a message (\<^verbatim>\<open>fmt.Errorf\<close>
  without \<^verbatim>\<open>%w\<close>, and the errors of the HTTP transport).  \<open>WrapError p e\<close> is what
  \<^verbatim>\<open>fmt.Errorf("p%w", e)\<close> returns: its own dynamic type, the message \<open>p\<close> followed
  by that of \<open>e\<close>, and \<open>e\<close> reachable through \<^verbatim>\<open>Unwrap\<close>.  A type assertion
  \<^verbatim>\<open>err.(*AuthError)\<close> succeeds on the first constructor only.
\<close>

datatype error =
    AuthError int string
  | NotFoundError string string
  | RateLimitError int
  | ErrorString string
  | WrapError string error

fun Error :: "error \<Rightarrow> string" where
  "Error (AuthError StatusCode Message) =
     ''authentication failed (status '' @ itoa StatusCode @ ''): '' @ Message"
| "Error (NotFoundError Resource ID) = Resource @ '' not found: '' @ ID"
| "Error (RateLimitError RetryAfter) =
     ''rate limited, retry after '' @ itoa RetryAfter @ '' seconds''"
| "Error (ErrorString s) = s"
| "Error (WrapError p e) = p @ Error e"

text \<open>\<^verbatim>\<open>fmt.Errorf(p + "%w", err)\<close> where \<open>err\<close> may be the nil error: \<^verbatim>\<open>%w\<close> of nil
  prints \<^verbatim>\<open>%!w(<nil>)\<close> and wraps nothing.\<close>

definition Errorf_w :: "string \<Rightarrow> error option \<Rightarrow> error" where
  "Errorf_w p err = (case err of None \<Rightarrow> ErrorString (p @ ''%!w(<nil>)'')
                               | Some e \<Rightarrow> WrapError p e)"

section \<open>Configuration and construction\<close>

record Config =
  Username :: string
  Password :: string
  BaseURL :: string
  UserAgent :: string
  MaxRetries :: int
  RetryDelay :: int
  Timeout :: int

definition DefaultConfig :: Config where
  "DefaultConfig =
     \<lparr>Username = '''', Password = '''',
      BaseURL = ''https://publication-bdds.apps.epo.org'',
      UserAgent = ''PatentDev/BDDS/1.0'',
      MaxRetries = 3, RetryDelay = 1, Timeout = 30\<rparr>"

text \<open>
  The fields of \<^verbatim>\<open>Client\<close> that the methods assign (\<open>token\<close>, \<open>tokenExpiry\<close>) form the
  record \<open>session\<close>; \<open>Client\<close> adds what \<^verbatim>\<open>NewClient\<close> fixes once and for all.

  \<^verbatim>\<open>c.config\<close> is a \<^verbatim>\<open>*Config\<close>: \<^verbatim>\<open>NewClient\<close> keeps the pointer it was given, and the
  struct behind it stays the caller's, who can assign to its fields later.  The
  \<^verbatim>\<open>Config\<close> structs therefore live in a \<open>store\<close>, a pointer is the index of a struct
  in it (every index below the length of the store; a Go pointer that is not nil
  always has its struct, and nil is \<open>None\<close>), and \<^verbatim>\<open>DefaultConfig()\<close> called on a nil
  configuration allocates at the end of the store.  (The structs that
  \<^verbatim>\<open>DefaultConfig()\<close> returns for reading one default value are dropped at once and
  get no place in the store.)  A method reads the configuration through
  \<^verbatim>\<open>c.config\<close> when it runs: the methods below take the struct's value at the time
  of the call as an argument \<open>cfg\<close> beside the state they change.
\<close>

record session =
  token :: string
  tokenExpiry :: Time

type_synonym addr = nat
type_synonym store = "Config list"

record Client = session +
  config :: addr
  httpClient_Timeout :: Duration

text \<open>
  \<^verbatim>\<open>generated.NewClientWithResponses\<close> is generated code outside the sources; the
  parameter \<open>newGenerated\<close> stands for it: given the server URL it reports an error
  message or nothing.
\<close>

definition NewClient ::
  "(string \<Rightarrow> string option) \<Rightarrow> addr option \<Rightarrow> store \<Rightarrow> (error + Client) \<times> store" where
  "NewClient newGenerated config0 h =
    (let (config, h0) = (case config0 of
                           None \<Rightarrow> (length h, h @ [DefaultConfig])
                         | Some a \<Rightarrow> (a, h));
         h1 = (if BaseURL (h0 ! config) = ''''
               then h0[config := (h0 ! config)\<lparr>BaseURL := BaseURL DefaultConfig\<rparr>] else h0);
         h2 = (if UserAgent (h1 ! config) = ''''
               then h1[config := (h1 ! config)\<lparr>UserAgent := UserAgent DefaultConfig\<rparr>] else h1);
         h3 = (if MaxRetries (h2 ! config) = 0
               then h2[config := (h2 ! config)\<lparr>MaxRetries := MaxRetries DefaultConfig\<rparr>] else h2);
         h4 = (if RetryDelay (h3 ! config) = 0
               then h3[config := (h3 ! config)\<lparr>RetryDelay := RetryDelay DefaultConfig\<rparr>] else h3);
         h5 = (if Timeout (h4 ! config) = 0
               then h4[config := (h4 ! config)\<lparr>Timeout := Timeout DefaultConfig\<rparr>] else h4)
     in case newGenerated (BaseURL (h5 ! config) @ ''/bdds/bdds-bff-service/prod/api'') of
          Some err \<Rightarrow> (Inl (WrapError ''failed to create client: '' (ErrorString err)), h5)
        | None \<Rightarrow> (Inr \<lparr>token = '''', tokenExpiry = 0, config = config,
                          httpClient_Timeout = seconds (Timeout (h5 ! config))\<rparr>, h5))"

section \<open>The world outside the client\<close>

text \<open>
  An HTTP request as the client builds it: method, URL, headers (\<^verbatim>\<open>Header.Set\<close>
  replaces a key's value) and, for the token request, the form values whose encoding
  is the body.
\<close>

record http_request =
  Method :: string
  URL :: string
  Header :: "(string \<times> string) list"
  Form :: "(string \<times> string) list"

definition Header_Set :: "string \<Rightarrow> string \<Rightarrow> http_request \<Rightarrow> http_request" where
  "Header_Set k v req = req\<lparr>Header := AList.update k v (Header req)\<rparr>"

definition Header_Get :: "http_request \<Rightarrow> string \<Rightarrow> string option" where
  "Header_Get req k = map_of (Header req) k"

text \<open>
  A response body is an \<^verbatim>\<open>io.Reader\<close>: the list of what its successive \<^verbatim>\<open>Read\<close> calls
  return, the bytes delivered and the error (\<^verbatim>\<open>io.EOF\<close> or a failure); once the list
  is used up, \<^verbatim>\<open>Read\<close> returns \<^verbatim>\<open>0, io.EOF\<close>.
\<close>

datatype read_error = EOF | Failed string

type_synonym body = "(string \<times> read_error option) list"

record http_response =
  StatusCode :: int
  ContentLength :: int
  Body :: body

fun body_Read :: "body \<Rightarrow> (string \<times> read_error option) \<times> body" where
  "body_Read [] = (([], Some EOF), [])"
| "body_Read (r # rest) = (r, rest)"

text \<open>\<^verbatim>\<open>io.ReadAll\<close>: everything up to \<^verbatim>\<open>io.EOF\<close> (no error) or up to a failure.\<close>

fun ReadAll :: "body \<Rightarrow> string \<times> error option" where
  "ReadAll [] = ([], None)"
| "ReadAll ((d, None) # rest) = (case ReadAll rest of (ds, e) \<Rightarrow> (d @ ds, e))"
| "ReadAll ((d, Some EOF) # rest) = (d, None)"
| "ReadAll ((d, Some (Failed m)) # rest) = (d, Some (ErrorString m))"

text \<open>
  The generated package (\<^verbatim>\<open>generated/\<close>) is not among the sources.  Its types are
  records with the fields \<^verbatim>\<open>types.go\<close> reads (prefixed \<open>g\<close>), and a parsed response
  has the status, the raw body and the decoded \<^verbatim>\<open>JSON200\<close>.
\<close>

record TokenResponse =
  AccessToken :: string
  ExpiresIn :: int

record gProduct =
  gId :: int
  gName :: string
  gDescription :: string

record gDeliveryFile =
  gFileId :: int
  gFileName :: string
  gFileSize :: string
  gFileChecksum :: string
  gFilePublicationDatetime :: Time

record gDelivery =
  gDeliveryId :: int
  gDeliveryName :: string
  gDeliveryPublicationDatetime :: Time
  gDeliveryExpiryDatetime :: "Time option"
  gFiles :: "gDeliveryFile list"

record gProductWithDeliveries = gProduct +
  gDeliveries :: "gDelivery list"

record 'a WithResponse =
  HTTPStatusCode :: int
  BodyBytes :: string
  JSON200 :: "'a option"

text \<open>
  What lies outside the package, as parameters:
  \<^item> \<open>RoundTrip n req\<close>: what \<^verbatim>\<open>httpClient.Do\<close> yields for \<open>req\<close> when \<open>n\<close> requests were
    sent before it: the time it took and a transport error or a response;
  \<^item> \<open>decodeToken\<close>: \<^verbatim>\<open>encoding/json\<close> decoding a body into a \<open>TokenResponse\<close>
    (\<^verbatim>\<open>readJSON\<close>), an error message on a malformed body;
  \<^item> \<open>parseList\<close>, \<open>parseGet\<close>: the generated response parsers;
  \<^item> \<open>caseOrbit\<close>: the tables of \<^verbatim>\<open>unicode.SimpleFold\<close>, as \<^verbatim>\<open>strings.EqualFold\<close> consults
    them: \<open>caseOrbit lo hi\<close> for two different code points \<open>lo < hi\<close>, \<open>hi\<close> beyond ASCII,
    says whether stepping with \<^verbatim>\<open>SimpleFold\<close> from \<open>lo\<close> arrives at \<open>hi\<close>, that is whether
    the two are in one orbit of the simple case folding.
\<close>

record env =
  RoundTrip :: "nat \<Rightarrow> http_request \<Rightarrow> nat \<times> (string + http_response)"
  decodeToken :: "body \<Rightarrow> string + TokenResponse"
  parseList :: "http_response \<Rightarrow> string + gProduct list WithResponse"
  parseGet :: "http_response \<Rightarrow> string + gProductWithDeliveries WithResponse"
  caseOrbit :: "nat \<Rightarrow> nat \<Rightarrow> bool"

text \<open>
  The state the methods change: the client's token and expiry, the clock read by
  \<^verbatim>\<open>time.Now\<close>, the requests handed to the transport (\<open>wire\<close>), the bytes the
  caller's writer accepted (\<open>sink\<close>), the arguments a logging progress callback saw
  (\<open>seen\<close>), and the \<open>timeline\<close> of sleeps (\<^verbatim>\<open>time.Sleep\<close>) and of returns of an observed
  operation (\<open>Returned None\<close> for a nil error).
\<close>

datatype step = Returned "error option" | Slept Duration

record world = session +
  clock :: Time
  timeline :: "step list"
  wire :: "http_request list"
  sink :: string
  seen :: "(int \<times> int) list"

definition time_Sleep :: "Duration \<Rightarrow> world \<Rightarrow> world" where
  "time_Sleep d w = w\<lparr>clock := clock w + max 0 d, timeline := timeline w @ [Slept d]\<rparr>"

definition Do :: "env \<Rightarrow> http_request \<Rightarrow> world \<Rightarrow> (error + http_response) \<times> world" where
  "Do e req w =
     (case RoundTrip e (length (wire w)) req of
        (elapsed, reply) \<Rightarrow>
          (case reply of Inl msg \<Rightarrow> Inl (ErrorString msg) | Inr resp \<Rightarrow> Inr resp,
           w\<lparr>clock := clock w + int elapsed, wire := wire w @ [req]\<rparr>))"

section \<open>Token manager and authenticator (\<^verbatim>\<open>types.go\<close>)\<close>

definition oauthURL :: string where
  "oauthURL = ''https://login.epo.org/oauth2/aus3up3nz0N133c0V417/v1/token''"

definition clientID :: string where
  "clientID = ''MG9hM3VwZG43YW41cE1JOE80MTc=''"

definition tokenRequest :: "Config \<Rightarrow> http_request" where
  "tokenRequest cfg =
     Header_Set ''Content-Type'' ''application/x-www-form-urlencoded''
       (Header_Set ''Authorization'' (''Basic '' @ clientID)
          \<lparr>Method = ''POST'', URL = oauthURL, Header = [],
           Form = [(''grant_type'', ''password''), (''password'', Password cfg),
                   (''scope'', ''openid''), (''username'', Username cfg)]\<rparr>)"

text \<open>
  \<^verbatim>\<open>authenticate\<close>.  \<^verbatim>\<open>http.NewRequestWithContext\<close> cannot fail on the constant method
  and URL, so its error branch has no counterpart.  The result is the returned error
  (\<open>None\<close> for nil) and the new state.
\<close>

definition authenticate :: "env \<Rightarrow> Config \<Rightarrow> world \<Rightarrow> error option \<times> world" where
  "authenticate e cfg w =
     (case Do e (tokenRequest cfg) w of
        (Inl err, w1) \<Rightarrow> (Some (WrapError ''auth request failed: '' err), w1)
      | (Inr resp, w1) \<Rightarrow>
          if StatusCode resp \<noteq> 200
          then (Some (AuthError (StatusCode resp) (fst (ReadAll (Body resp)))), w1)
          else (case decodeToken e (Body resp) of
                  Inl msg \<Rightarrow>
                    (Some (WrapError ''failed to parse token response: '' (ErrorString msg)), w1)
                | Inr tokenResp \<Rightarrow>
                    (None, w1\<lparr>token := AccessToken tokenResp,
                               tokenExpiry := clock w1 + tokenTTL\<rparr>)))"

definition ensureValidToken :: "env \<Rightarrow> Config \<Rightarrow> world \<Rightarrow> error option \<times> world" where
  "ensureValidToken e cfg w =
     (if Username cfg = '''' \<or> Password cfg = '''' then (None, w)
      else if token w \<noteq> '''' \<and> clock w + tokenRefreshBuffer < tokenExpiry w then (None, w)
      else authenticate e cfg w)"

definition authRequestEditor ::
  "env \<Rightarrow> Config \<Rightarrow> http_request \<Rightarrow> world \<Rightarrow> (error + http_request) \<times> world" where
  "authRequestEditor e cfg req w =
     (if Username cfg \<noteq> '''' \<and> Password cfg \<noteq> ''''
      then (case ensureValidToken e cfg w of
              (Some err, w1) \<Rightarrow> (Inl (WrapError ''authentication failed: '' err), w1)
            | (None, w1) \<Rightarrow>
                (Inr (Header_Set ''User-Agent'' (UserAgent cfg)
                        (Header_Set ''Authorization'' (''Bearer '' @ token w1) req)), w1))
      else (Inr (Header_Set ''User-Agent'' (UserAgent cfg) req), w))"

section \<open>Retry orchestrator\<close>

fun is401 :: "error \<Rightarrow> bool" where
  "is401 (AuthError status msg) = (status = 401)"
| "is401 _ = False"

text \<open>
  The loop of \<^verbatim>\<open>retryableRequest\<close>.  The closure \<open>fn\<close> returns its error, or the value
  it stored in the captured result variable when the error is nil.  \<open>attempt\<close> stays
  below \<open>2 ^ 63\<close> for every \<open>MaxRetries\<close> below \<open>2 ^ 63 - 1\<close>, so its increment is
  written without wrap-around.
\<close>

function retryLoop ::
  "Config \<Rightarrow> (world \<Rightarrow> (error + 'r) \<times> world) \<Rightarrow> int \<Rightarrow> error option \<Rightarrow> world
     \<Rightarrow> (error + 'r) \<times> world" where
  "retryLoop cfg fn attempt lastErr w =
     (if attempt \<le> MaxRetries cfg then
        (case fn w of
           (Inr r, w1) \<Rightarrow> (Inr r, w1)
         | (Inl err, w1) \<Rightarrow>
             (let w2 = (if is401 err \<and> attempt < MaxRetries cfg
                        then w1\<lparr>token := '''', tokenExpiry := 0\<rparr> else w1);
                  w3 = (if attempt < MaxRetries cfg
                        then time_Sleep (seconds (RetryDelay cfg * (attempt + 1))) w2 else w2)
              in retryLoop cfg fn (attempt + 1) (Some err) w3))
      else (Inl (Errorf_w (''failed after '' @ itoa (MaxRetries cfg) @ '' retries: '') lastErr), w))"
  by pat_completeness auto
termination
  by (relation "measure (\<lambda>(cfg, fn, attempt, lastErr, w). nat (MaxRetries cfg + 1 - attempt))") auto

declare retryLoop.simps [simp del]

text \<open>What the loop does between a failed attempt and the next one: the two conditional
  statements after \<^verbatim>\<open>lastErr = err\<close>, named for the proofs.\<close>

definition between_attempts :: "Config \<Rightarrow> int \<Rightarrow> error \<Rightarrow> world \<Rightarrow> world" where
  "between_attempts cfg attempt err w1 =
     (let w2 = (if is401 err \<and> attempt < MaxRetries cfg
                then w1\<lparr>token := [], tokenExpiry := 0\<rparr> else w1)
      in if attempt < MaxRetries cfg
         then time_Sleep (seconds (RetryDelay cfg * (attempt + 1))) w2 else w2)"

definition retryableRequest ::
  "Config \<Rightarrow> (world \<Rightarrow> (error + 'r) \<times> world) \<Rightarrow> world \<Rightarrow> (error + 'r) \<times> world" where
  "retryableRequest cfg fn w = retryLoop cfg fn 0 None w"

section \<open>Transport client\<close>

record Product =
  ID :: int
  Name :: string
  Description :: string

record DeliveryFile =
  FileID :: int
  FileName :: string
  FileSize :: string
  FileChecksum :: string
  FilePublicationDatetime :: Time

record Delivery =
  DeliveryID :: int
  DeliveryName :: string
  DeliveryPublicationDatetime :: Time
  DeliveryExpiryDatetime :: "Time option"
  Files :: "DeliveryFile list"

record ProductWithDeliveries = Product +
  Deliveries :: "Delivery list"

subsection \<open>The generated client\<close>

text \<open>
  Modelled from the spec: the generated client (\<^verbatim>\<open>generated.ClientWithResponses\<close>) is
  not among the sources.  By sections 2 and 4.4 of the spec each call builds the
  request, passes it to the request-decoration hook registered in \<^verbatim>\<open>NewClient\<close>
  (\<^verbatim>\<open>authRequestEditor\<close>), returns the hook's error if it has one, and otherwise sends
  the decorated request and maps the response.  The paths are those the tests serve.
\<close>

definition server :: "Config \<Rightarrow> string" where
  "server cfg = BaseURL cfg @ ''/bdds/bdds-bff-service/prod/api''"

definition NewRequest :: "string \<Rightarrow> string \<Rightarrow> http_request" where
  "NewRequest m u = \<lparr>Method = m, URL = u, Header = [], Form = []\<rparr>"

definition generated_Do ::
  "env \<Rightarrow> Config \<Rightarrow> http_request \<Rightarrow> world \<Rightarrow> (error + http_response) \<times> world" where
  "generated_Do e cfg req w =
     (case authRequestEditor e cfg req w of
        (Inl err, w1) \<Rightarrow> (Inl err, w1)
      | (Inr req1, w1) \<Rightarrow> Do e req1 w1)"

definition ListProductsWithResponse ::
  "env \<Rightarrow> Config \<Rightarrow> world \<Rightarrow> (error + gProduct list WithResponse) \<times> world" where
  "ListProductsWithResponse e cfg w =
     (case generated_Do e cfg (NewRequest ''GET'' (server cfg @ ''/products/'')) w of
        (Inl err, w1) \<Rightarrow> (Inl err, w1)
      | (Inr rsp, w1) \<Rightarrow>
          (case parseList e rsp of
             Inl msg \<Rightarrow> (Inl (ErrorString msg), w1)
           | Inr resp \<Rightarrow> (Inr resp, w1)))"

definition GetProductWithResponse ::
  "env \<Rightarrow> Config \<Rightarrow> int \<Rightarrow> world \<Rightarrow> (error + gProductWithDeliveries WithResponse) \<times> world" where
  "GetProductWithResponse e cfg productID w =
     (case generated_Do e cfg (NewRequest ''GET'' (server cfg @ ''/products/'' @ itoa productID)) w of
        (Inl err, w1) \<Rightarrow> (Inl err, w1)
      | (Inr rsp, w1) \<Rightarrow>
          (case parseGet e rsp of
             Inl msg \<Rightarrow> (Inl (ErrorString msg), w1)
           | Inr resp \<Rightarrow> (Inr resp, w1)))"

definition generated_DownloadFile ::
  "env \<Rightarrow> Config \<Rightarrow> int \<Rightarrow> int \<Rightarrow> int \<Rightarrow> world \<Rightarrow> (error + http_response) \<times> world" where
  "generated_DownloadFile e cfg productID deliveryID fileID w =
     generated_Do e cfg
       (NewRequest ''GET'' (server cfg @ ''/products/'' @ itoa productID @ ''/delivery/''
          @ itoa deliveryID @ ''/file/'' @ itoa fileID @ ''/download'')) w"

subsection \<open>\<^verbatim>\<open>ListProducts\<close> and \<^verbatim>\<open>GetProduct\<close>\<close>

text \<open>Each operation is the closure it passes to \<^verbatim>\<open>retryableRequest\<close> (suffix \<open>_fn\<close>)
  and the call of \<^verbatim>\<open>retryableRequest\<close> on it.\<close>

definition unexpected_status :: "int \<Rightarrow> string \<Rightarrow> error" where
  "unexpected_status status b = ErrorString (''unexpected status '' @ itoa status @ '': '' @ b)"

definition toProduct :: "gProduct \<Rightarrow> Product" where
  "toProduct p = \<lparr>ID = gId p, Name = gName p, Description = gDescription p\<rparr>"

definition ListProducts_fn :: "env \<Rightarrow> Config \<Rightarrow> world \<Rightarrow> (error + Product list) \<times> world" where
  "ListProducts_fn e cfg w =
     (case ListProductsWithResponse e cfg w of
        (Inl err, w1) \<Rightarrow> (Inl err, w1)
      | (Inr resp, w1) \<Rightarrow>
          if HTTPStatusCode resp \<noteq> 200
          then (Inl (unexpected_status (HTTPStatusCode resp) (BodyBytes resp)), w1)
          else (case JSON200 resp of
                  None \<Rightarrow> (Inl (ErrorString ''empty response body''), w1)
                | Some ps \<Rightarrow> (Inr (map toProduct ps), w1)))"

definition ListProducts :: "env \<Rightarrow> Config \<Rightarrow> world \<Rightarrow> (error + Product list) \<times> world" where
  "ListProducts e cfg w = retryableRequest cfg (ListProducts_fn e cfg) w"

definition toDeliveryFile :: "gDeliveryFile \<Rightarrow> DeliveryFile" where
  "toDeliveryFile f =
     \<lparr>FileID = gFileId f, FileName = gFileName f, FileSize = gFileSize f,
      FileChecksum = gFileChecksum f, FilePublicationDatetime = gFilePublicationDatetime f\<rparr>"

definition toDelivery :: "gDelivery \<Rightarrow> Delivery" where
  "toDelivery d =
     \<lparr>DeliveryID = gDeliveryId d, DeliveryName = gDeliveryName d,
      DeliveryPublicationDatetime = gDeliveryPublicationDatetime d,
      DeliveryExpiryDatetime = gDeliveryExpiryDatetime d,
      Files = map toDeliveryFile (gFiles d)\<rparr>"

definition GetProduct_fn ::
  "env \<Rightarrow> Config \<Rightarrow> int \<Rightarrow> world \<Rightarrow> (error + ProductWithDeliveries) \<times> world" where
  "GetProduct_fn e cfg productID w =
     (case GetProductWithResponse e cfg productID w of
        (Inl err, w1) \<Rightarrow> (Inl err, w1)
      | (Inr resp, w1) \<Rightarrow>
          if HTTPStatusCode resp = 404
          then (Inl (NotFoundError ''product'' (itoa productID)), w1)
          else if HTTPStatusCode resp \<noteq> 200
          then (Inl (unexpected_status (HTTPStatusCode resp) (BodyBytes resp)), w1)
          else (case JSON200 resp of
                  None \<Rightarrow> (Inl (ErrorString ''empty response body''), w1)
                | Some p \<Rightarrow>
                    (Inr \<lparr>ID = gId p, Name = gName p, Description = gDescription p,
                          Deliveries = map toDelivery (gDeliveries p)\<rparr>, w1)))"

definition GetProduct ::
  "env \<Rightarrow> Config \<Rightarrow> int \<Rightarrow> world \<Rightarrow> (error + ProductWithDeliveries) \<times> world" where
  "GetProduct e cfg productID w = retryableRequest cfg (GetProduct_fn e cfg productID) w"

subsection \<open>Downloads and the progress reader (\<^verbatim>\<open>utils.go\<close>)\<close>

text \<open>
  The progress callback is a function of the caller: it receives the two counters and
  acts on the world.  \<open>Reader\<close> is the interface \<^verbatim>\<open>io.Reader\<close> with the two dynamic
  types \<^verbatim>\<open>DownloadFileWithProgress\<close> hands to \<^verbatim>\<open>io.Copy\<close>.
\<close>

record progressReader =
  reader :: body
  total :: int
  current :: int
  progressFn :: "(int \<Rightarrow> int \<Rightarrow> world \<Rightarrow> world) option"

definition progressReader_Read ::
  "progressReader \<Rightarrow> world \<Rightarrow> (string \<times> read_error option) \<times> progressReader \<times> world" where
  "progressReader_Read pr w =
     (case body_Read (reader pr) of
        ((p, err), rest) \<Rightarrow>
          (let pr1 = pr\<lparr>reader := rest, current := current pr + int (length p)\<rparr>
           in ((p, err), pr1,
               (case progressFn pr1 of
                  None \<Rightarrow> w
                | Some f \<Rightarrow> f (current pr1) (total pr1) w))))"

datatype Reader = BodyReader body | ProgressReader progressReader

fun Read :: "Reader \<Rightarrow> world \<Rightarrow> (string \<times> read_error option) \<times> Reader \<times> world" where
  "Read (BodyReader b) w = (case body_Read b of (r, rest) \<Rightarrow> (r, BodyReader rest, w))"
| "Read (ProgressReader pr) w =
     (case progressReader_Read pr w of (r, pr1, w1) \<Rightarrow> (r, ProgressReader pr1, w1))"

fun unread :: "Reader \<Rightarrow> nat" where
  "unread (BodyReader b) = length b"
| "unread (ProgressReader pr) = length (reader pr)"

text \<open>The callback a reader carries, named for the proofs.\<close>

fun callback :: "Reader \<Rightarrow> (int \<Rightarrow> int \<Rightarrow> world \<Rightarrow> world) option" where
  "callback (BodyReader b) = None"
| "callback (ProgressReader pr) = progressFn pr"

text \<open>
  The caller's \<^verbatim>\<open>io.Writer\<close>: \<^verbatim>\<open>Write\<close> returns the count it accepted and an error.
  \<open>copy_Write\<close> is the write step of \<^verbatim>\<open>io.Copy\<close>'s loop with its checks of that
  count; \<open>io_Copy\<close> is the loop, for a writer and reader without \<^verbatim>\<open>ReadFrom\<close> or
  \<^verbatim>\<open>WriteTo\<close> (a writer with \<^verbatim>\<open>ReadFrom\<close> reads the same reader to its end likewise).
\<close>

type_synonym Writer = "string \<Rightarrow> world \<Rightarrow> (int \<times> error option) \<times> world"

definition copy_Write :: "Writer \<Rightarrow> string \<Rightarrow> world \<Rightarrow> error option \<times> world" where
  "copy_Write dst p w =
     (case dst p w of
        ((nw, ew), w1) \<Rightarrow>
          if nw < 0 \<or> int (length p) < nw
          then (if ew = None then Some (ErrorString ''invalid write result'') else ew, w1)
          else if ew \<noteq> None then (ew, w1)
          else if int (length p) \<noteq> nw then (Some (ErrorString ''short write''), w1)
          else (None, w1))"

function io_Copy :: "Writer \<Rightarrow> Reader \<Rightarrow> world \<Rightarrow> error option \<times> world" where
  "io_Copy dst src w =
     (case Read src w of
        ((p, er), src1, w1) \<Rightarrow>
          (case (if 0 < length p then copy_Write dst p w1 else (None, w1)) of
             (Some ew, w2) \<Rightarrow> (Some ew, w2)
           | (None, w2) \<Rightarrow>
               (case er of
                  Some EOF \<Rightarrow> (None, w2)
                | Some (Failed m) \<Rightarrow> (Some (ErrorString m), w2)
                | None \<Rightarrow> io_Copy dst src1 w2)))"
  by pat_completeness auto
termination
proof (relation "measure (\<lambda>(dst, src, w). unread src)")
  show "wf (measure (\<lambda>(dst, src, w). unread src))" by simp
next
  fix dst :: Writer and src w x y p er src1 w1 ew w2
  assume "(x, y) = Read src w" "(p, er) = x" "(src1, w1) = y" "er = None"
  then have r: "Read src w = ((p, None), src1, w1)"
    by (cases "Read src w") auto
  have "unread src1 < unread src"
  proof (cases src)
    case (BodyReader b)
    with r show ?thesis by (cases b) (auto split: prod.splits)
  next
    case (ProgressReader pr)
    with r show ?thesis
      by (cases "reader pr") (auto simp: progressReader_Read_def Let_def split: prod.splits)
  qed
  then show "((dst, src1, w2), dst, src, w) \<in> measure (\<lambda>(dst, src, w). unread src)"
    by simp
qed

declare io_Copy.simps [simp del]

definition DownloadFileWithProgress_fn ::
  "env \<Rightarrow> Config \<Rightarrow> int \<Rightarrow> int \<Rightarrow> int \<Rightarrow> Writer \<Rightarrow> (int \<Rightarrow> int \<Rightarrow> world \<Rightarrow> world) option
     \<Rightarrow> world \<Rightarrow> (error + unit) \<times> world" where
  "DownloadFileWithProgress_fn e cfg productID deliveryID fileID dst progress w =
     (case generated_DownloadFile e cfg productID deliveryID fileID w of
        (Inl err, w1) \<Rightarrow> (Inl err, w1)
      | (Inr resp, w1) \<Rightarrow>
          if StatusCode resp = 404
          then (Inl (NotFoundError ''file''
                  (itoa productID @ ''/'' @ itoa deliveryID @ ''/'' @ itoa fileID)), w1)
          else if StatusCode resp \<noteq> 200
          then (Inl (unexpected_status (StatusCode resp) (fst (ReadAll (Body resp)))), w1)
          else (let src = (case progress of
                             None \<Rightarrow> BodyReader (Body resp)
                           | Some f \<Rightarrow>
                               ProgressReader \<lparr>reader = Body resp, total = ContentLength resp,
                                               current = 0, progressFn = Some f\<rparr>)
                in case io_Copy dst src w1 of
                     (Some err, w2) \<Rightarrow> (Inl err, w2)
                   | (None, w2) \<Rightarrow> (Inr (), w2)))"

definition DownloadFileWithProgress ::
  "env \<Rightarrow> Config \<Rightarrow> int \<Rightarrow> int \<Rightarrow> int \<Rightarrow> Writer \<Rightarrow> (int \<Rightarrow> int \<Rightarrow> world \<Rightarrow> world) option
     \<Rightarrow> world \<Rightarrow> (error + unit) \<times> world" where
  "DownloadFileWithProgress e cfg productID deliveryID fileID dst progress w =
     retryableRequest cfg
       (DownloadFileWithProgress_fn e cfg productID deliveryID fileID dst progress) w"

definition DownloadFile ::
  "env \<Rightarrow> Config \<Rightarrow> int \<Rightarrow> int \<Rightarrow> int \<Rightarrow> Writer \<Rightarrow> world \<Rightarrow> (error + unit) \<times> world" where
  "DownloadFile e cfg productID deliveryID fileID dst w =
     DownloadFileWithProgress e cfg productID deliveryID fileID dst None w"

subsection \<open>Derived lookups\<close>

text \<open>
  \<^verbatim>\<open>GetProductByName\<close> compares names with \<^verbatim>\<open>strings.EqualFold\<close> of the Go library,
  which is written out here with the UTF-8 decoder it uses.

  \<^verbatim>\<open>utf8.DecodeRuneInString\<close> returns the first code point of a string and the number
  of bytes it takes.  The classes of the first byte (table \<^verbatim>\<open>first\<close>) are: below
  \<open>0x80\<close> ASCII; \<open>0xC2..0xDF\<close> two bytes, \<open>0xE0..0xEF\<close> three, \<open>0xF0..0xF4\<close> four; every
  other byte invalid.  The second byte must lie in the accept range of the first
  (\<open>0x80..0xBF\<close>, but from \<open>0xA0\<close> after \<open>0xE0\<close>, up to \<open>0x9F\<close> after \<open>0xED\<close>, from
  \<open>0x90\<close> after \<open>0xF0\<close>, up to \<open>0x8F\<close> after \<open>0xF4\<close>), the later ones in \<open>0x80..0xBF\<close>.
  Whatever is not such an encoding gives \<^verbatim>\<open>RuneError\<close> (\<open>U+FFFD\<close>) and the width 1.  The
  bit fields that the decoder joins with \<^verbatim>\<open>|\<close> do not overlap, so they are added.
\<close>

definition RuneError :: nat where
  "RuneError = 65533"

fun DecodeRuneInString :: "string \<Rightarrow> nat \<times> nat" where
  "DecodeRuneInString [] = (RuneError, 0)"
| "DecodeRuneInString (c # cs) =
     (let s0 = (of_char c :: nat) in
      if s0 < 128 then (s0, 1)
      else if s0 < 194 \<or> 244 < s0 then (RuneError, 1)
      else
        (let sz = (if s0 < 224 then 2 else if s0 < 240 then 3 else 4 :: nat);
             lo = (if s0 = 224 then 160 else if s0 = 240 then 144 else 128 :: nat);
             hi = (if s0 = 237 then 159 else if s0 = 244 then 143 else 191 :: nat)
         in if length (c # cs) < sz then (RuneError, 1)
            else
              (let s1 = (of_char (cs ! 0) :: nat) in
               if s1 < lo \<or> hi < s1 then (RuneError, 1)
               else if sz \<le> 2 then (s0 mod 32 * 64 + s1 mod 64, 2)
               else
                 (let s2 = (of_char (cs ! 1) :: nat) in
                  if s2 < 128 \<or> 191 < s2 then (RuneError, 1)
                  else if sz \<le> 3 then (s0 mod 16 * 4096 + s1 mod 64 * 64 + s2 mod 64, 3)
                  else
                    (let s3 = (of_char (cs ! 2) :: nat) in
                     if s3 < 128 \<or> 191 < s3 then (RuneError, 1)
                     else (s0 mod 8 * 262144 + s1 mod 64 * 4096 + s2 mod 64 * 64 + s3 mod 64, 4))))))"

text \<open>
  The rune loop of \<^verbatim>\<open>EqualFold\<close> (label \<^verbatim>\<open>hasUnicode\<close>): \<^verbatim>\<open>for _, sr := range s\<close> decodes
  \<open>s\<close> as \<^verbatim>\<open>DecodeRuneInString\<close> does; the first rune of \<open>t\<close> is extracted; the two
  runes must be equal, or ASCII letters of either case, or, one of them being
  beyond ASCII, in one orbit of \<^verbatim>\<open>unicode.SimpleFold\<close> (parameter \<open>orbit\<close>, asked with the
  smaller rune first).  A pair that passes is a \<^verbatim>\<open>continue\<close>, any other
  \<^verbatim>\<open>return false\<close>.
\<close>

function EqualFold_hasUnicode :: "(nat \<Rightarrow> nat \<Rightarrow> bool) \<Rightarrow> string \<Rightarrow> string \<Rightarrow> bool" where
  "EqualFold_hasUnicode orbit s t =
     (if s = [] then t = []
      else
        (case DecodeRuneInString s of
           (sr, ssize) \<Rightarrow>
             if t = [] then False
             else
               (case (if (of_char (t ! 0) :: nat) < 128 then (of_char (t ! 0), 1)
                      else DecodeRuneInString t) of
                  (tr, tsize) \<Rightarrow>
                    if (if tr = sr then True
                        else
                          (let lo = min sr tr; hi = max sr tr in
                           if hi < 128 then 65 \<le> lo \<and> lo \<le> 90 \<and> hi = lo + 32
                           else orbit lo hi))
                    then EqualFold_hasUnicode orbit (drop ssize s) (drop tsize t)
                    else False)))"
  by pat_completeness auto
termination
proof (relation "measure (\<lambda>(orbit, s, t). length s)")
  show "wf (measure (\<lambda>(orbit, s, t). length s))" by simp
next
  fix orbit :: "nat \<Rightarrow> nat \<Rightarrow> bool" and s t :: string and x y xa ya :: nat
  assume "s \<noteq> []" "(x, y) = DecodeRuneInString s"
  then have "0 < y"
    by (cases s) (auto simp: Let_def split: if_splits)
  with \<open>s \<noteq> []\<close>
  show "((orbit, drop y s, drop ya t), orbit, s, t) \<in> measure (\<lambda>(orbit, s, t). length s)"
    by simp
qed

declare EqualFold_hasUnicode.simps [simp del]

text \<open>
  \<^verbatim>\<open>strings.EqualFold\<close>: its byte loop over ASCII, which hands the rest of both strings
  over to the rune loop at the first position where either byte is \<open>\<ge> 0x80\<close>.
\<close>

fun EqualFold :: "(nat \<Rightarrow> nat \<Rightarrow> bool) \<Rightarrow> string \<Rightarrow> string \<Rightarrow> bool" where
  "EqualFold orbit (sr # s) (tr # t) =
     (if 128 \<le> (of_char sr :: nat) \<or> 128 \<le> (of_char tr :: nat)
      then EqualFold_hasUnicode orbit (sr # s) (tr # t)
      else if tr = sr then EqualFold orbit s t
      else (let lo = min (of_char sr) (of_char tr) :: nat;
                hi = max (of_char sr) (of_char tr) :: nat
            in if 65 \<le> lo \<and> lo \<le> 90 \<and> hi = lo + 32 then EqualFold orbit s t else False))"
| "EqualFold orbit s t = (length s = length t)"


definition GetLatestDelivery ::
  "env \<Rightarrow> Config \<Rightarrow> int \<Rightarrow> world \<Rightarrow> (error + Delivery) \<times> world" where
  "GetLatestDelivery e cfg productID w =
     (case GetProduct e cfg productID w of
        (Inl err, w1) \<Rightarrow> (Inl err, w1)
      | (Inr product, w1) \<Rightarrow>
          (case Deliveries product of
             [] \<Rightarrow> (Inl (NotFoundError ''delivery''
                      (''product '' @ itoa productID @ '' has no deliveries'')), w1)
           | d0 # rest \<Rightarrow>
               (Inr (foldl (\<lambda>latest d.
                              if DeliveryPublicationDatetime latest < DeliveryPublicationDatetime d
                              then d else latest) d0 rest), w1)))"

section \<open>Concrete surroundings for the worked runs\<close>

text \<open>
  A scripted transport (\<open>on_script\<close>: the \<open>n\<close>-th request gets the \<open>n\<close>-th entry,
  later ones a refused connection) and table-driven decoders (\<open>lab\<close>), used where a theorem is run on a
  concrete input.  \<open>{}\<close> decodes to a token response with empty fields, as
  \<^verbatim>\<open>encoding/json\<close> decodes an empty object into a struct.
\<close>

definition on_script ::
  "(nat \<times> (string + http_response)) list \<Rightarrow> nat \<Rightarrow> http_request \<Rightarrow> nat \<times> (string + http_response)" where
  "on_script script n req = (if n < length script then script ! n else (0, Inl ''connection refused''))"

definition replies :: "nat \<Rightarrow> int \<Rightarrow> string \<Rightarrow> nat \<times> (string + http_response)" where
  "replies elapsed status txt =
     (elapsed, Inr \<lparr>StatusCode = status, ContentLength = int (length txt), Body = [(txt, Some EOF)]\<rparr>)"

definition decode_table :: "body \<Rightarrow> string + TokenResponse" where
  "decode_table b =
     (case map_of [(''{}'', \<lparr>AccessToken = [], ExpiresIn = 0\<rparr>),
                   (''{access_token: T1, expires_in: 7200}'', \<lparr>AccessToken = ''T1'', ExpiresIn = 7200\<rparr>)]
             (fst (ReadAll b)) of
        Some t \<Rightarrow> Inr t
      | None \<Rightarrow> Inl ''invalid character'')"

definition catalogue :: "gProduct list" where
  "catalogue =
     [\<lparr>gId = 3, gName = ''EP DocDB front file'', gDescription = ''bibliographic data''\<rparr>,
      \<lparr>gId = 4, gName = ''EP full-text data - front file'', gDescription = ''full text''\<rparr>,
      \<lparr>gId = 14, gName = ''EP DocDB back file'', gDescription = ''back file''\<rparr>]"

text \<open>A listing with names beyond ASCII: one that ends in the replacement character
  \<open>U+FFFD\<close> (bytes \<open>EF BF BD\<close>), and one with the letter \<open>e\<close> with acute accent twice
  (\<open>U+00E9\<close>, bytes \<open>C3 A9\<close>).  \<open>case_table\<close> is an excerpt of the Unicode orbits: that
  letter with its capital (\<open>U+00C9\<close>), and the Kelvin sign (\<open>U+212A\<close>) with \<open>K\<close> and
  \<open>k\<close>.\<close>

definition gazette :: "gProduct list" where
  "gazette =
     [\<lparr>gId = 21, gName = ''EP '' @ [CHR 0xEF, CHR 0xBF, CHR 0xBD], gDescription = ''unnamed''\<rparr>,
      \<lparr>gId = 22, gName = ''EP R'' @ [CHR 0xC3, CHR 0xA9] @ ''sum'' @ [CHR 0xC3, CHR 0xA9],
       gDescription = ''abstracts''\<rparr>]"

definition case_table :: "(nat \<times> nat) list" where
  "case_table = [(201, 233), (75, 8490), (107, 8490)]"

definition product3 :: gProductWithDeliveries where
  "product3 =
     \<lparr>gId = 3, gName = ''EP DocDB front file'', gDescription = ''bibliographic data'',
      gDeliveries =
        [\<lparr>gDeliveryId = 12340, gDeliveryName = ''2024-10-14'',
          gDeliveryPublicationDatetime = 20241014, gDeliveryExpiryDatetime = None,
          gFiles = []\<rparr>,
         \<lparr>gDeliveryId = 12345, gDeliveryName = ''2024-10-15'',
          gDeliveryPublicationDatetime = 20241015, gDeliveryExpiryDatetime = Some 20241115,
          gFiles = []\<rparr>,
         \<lparr>gDeliveryId = 12346, gDeliveryName = ''2024-10-15 bis'',
          gDeliveryPublicationDatetime = 20241015, gDeliveryExpiryDatetime = None,
          gFiles = []\<rparr>]\<rparr>"

definition parse_table :: "(string \<times> 'a) list \<Rightarrow> http_response \<Rightarrow> string + 'a WithResponse" where
  "parse_table table rsp =
     Inr \<lparr>HTTPStatusCode = StatusCode rsp, BodyBytes = fst (ReadAll (Body rsp)),
          JSON200 = (if StatusCode rsp = 200 then map_of table (fst (ReadAll (Body rsp))) else None)\<rparr>"

definition lab :: "(nat \<Rightarrow> http_request \<Rightarrow> nat \<times> (string + http_response)) \<Rightarrow> env" where
  "lab transport =
     \<lparr>RoundTrip = transport, decodeToken = decode_table,
      parseList = parse_table [(''catalogue'', catalogue), (''gazette'', gazette)],
      parseGet = parse_table [(''product3'', product3), (''bare'', product3\<lparr>gDeliveries := []\<rparr>)],
      caseOrbit = (\<lambda>lo hi. (lo, hi) \<in> set case_table)\<rparr>"

definition subscriber :: Config where
  "subscriber =
     \<lparr>Username = ''u'', Password = ''p'', BaseURL = ''https://publication-bdds.apps.epo.org'',
      UserAgent = ''PatentDev/BDDS/1.0'', MaxRetries = 1, RetryDelay = 1, Timeout = 30\<rparr>"

definition anonymous :: Config where
  "anonymous = subscriber\<lparr>Username := [], Password := []\<rparr>"

definition at_noon :: "string \<Rightarrow> Time \<Rightarrow> world" where
  "at_noon tok expiry =
     \<lparr>token = tok, tokenExpiry = expiry, clock = 43200000000000, timeline = [], wire = [],
      sink = [], seen = []\<rparr>"

text \<open>A writer that accepts everything (as \<^verbatim>\<open>bytes.Buffer\<close>) and a callback that records
  its arguments.\<close>

definition buffer :: Writer where
  "buffer p w = ((int (length p), None), w\<lparr>sink := sink w @ p\<rparr>)"

definition record_progress :: "int \<Rightarrow> int \<Rightarrow> world \<Rightarrow> world" where
  "record_progress bytesWritten totalBytes w = w\<lparr>seen := seen w @ [(bytesWritten, totalBytes)]\<rparr>"

text \<open>An operation observed from outside: each return is noted on the timeline, with
  its error.  \<open>backoff_rounds delay i errs\<close> is the timeline of failed attempts number
  \<open>i\<close>, \<open>i + 1\<close>, ... with errors \<open>errs\<close>, each followed by a sleep of
  \<open>delay * (attemptIndex + 1)\<close> seconds.\<close>

definition observed :: "(world \<Rightarrow> (error + 'r) \<times> world) \<Rightarrow> world \<Rightarrow> (error + 'r) \<times> world" where
  "observed fn w =
     (case fn w of
        (r, w1) \<Rightarrow>
          (r, w1\<lparr>timeline := timeline w1 @ [Returned (case r of Inl err \<Rightarrow> Some err | Inr v \<Rightarrow> None)]\<rparr>))"

fun backoff_rounds :: "int \<Rightarrow> int \<Rightarrow> error list \<Rightarrow> step list" where
  "backoff_rounds delay i [] = []"
| "backoff_rounds delay i (err # errs) =
     Returned (Some err) # Slept (delay * (i + 1) * Second) # backoff_rounds delay (i + 1) errs"

text \<open>\<open>attempt_rounds cfg i errs\<close> is the same timeline with the sleeps the loop computes:
  \<^verbatim>\<open>time.Duration(c.config.RetryDelay*(attempt+1)) * time.Second\<close>.\<close>

fun attempt_rounds :: "Config \<Rightarrow> int \<Rightarrow> error list \<Rightarrow> step list" where
  "attempt_rounds cfg i [] = []"
| "attempt_rounds cfg i (err # errs) =
     Returned (Some err) # Slept (seconds (RetryDelay cfg * (i + 1))) # attempt_rounds cfg (i + 1) errs"

text \<open>Two operations for the worked runs: one that always fails, and one that fails
  with a Not-Found error as long as the clock stands at noon.\<close>

definition boom :: "world \<Rightarrow> (error + unit) \<times> world" where
  "boom w = (Inl (ErrorString ''boom''), w)"

definition flaky :: "world \<Rightarrow> (error + unit) \<times> world" where
  "flaky w = (if clock w = 43200000000000 then Inl (NotFoundError ''file'' ''1/2/3'') else Inr (), w)"

text \<open>A transport that gives every request the same reply.\<close>

definition always ::
  "nat \<times> (string + http_response) \<Rightarrow> nat \<Rightarrow> http_request \<Rightarrow> nat \<times> (string + http_response)" where
  "always reply n req = reply"

text \<open>A 200 reply whose body arrives in the given chunks and whose \<^verbatim>\<open>Content-Length\<close> is
  their total length.\<close>

definition in_chunks :: "string list \<Rightarrow> nat \<times> (string + http_response)" where
  "in_chunks cs =
     (0, Inr \<lparr>StatusCode = 200, ContentLength = int (length (concat cs)),
               Body = map (\<lambda>c. (c, None)) cs\<rparr>)"

text \<open>A 200 reply that announces \<open>n\<close> bytes and whose body fails after the given chunks.\<close>

definition cut_off :: "string list \<Rightarrow> int \<Rightarrow> string \<Rightarrow> nat \<times> (string + http_response)" where
  "cut_off cs n msg =
     (0, Inr \<lparr>StatusCode = 200, ContentLength = n,
               Body = map (\<lambda>c. (c, None)) cs @ [([], Some (Failed msg))]\<rparr>)"

text \<open>
  For the worked runs of \<^verbatim>\<open>NewClient\<close>: a generated constructor that accepts every
  server URL, a caller's configuration with every optional field left at zero, and
  the caller's assignment \<^verbatim>\<open>cfg.MaxRetries = n\<close> through its own pointer.
\<close>

definition generated_ok :: "string \<Rightarrow> string option" where
  "generated_ok serverURL = None"

definition zeroes :: Config where
  "zeroes = \<lparr>Username = ''u'', Password = ''p'', BaseURL = '''', UserAgent = '''',
             MaxRetries = 0, RetryDelay = 0, Timeout = 0\<rparr>"

definition assign_MaxRetries :: "addr \<Rightarrow> int \<Rightarrow> store \<Rightarrow> store" where
  "assign_MaxRetries cfg n h = h[cfg := (h ! cfg)\<lparr>MaxRetries := n\<rparr>]"

section \<open>Notions used in the statements\<close>

text \<open>The configuration \<^verbatim>\<open>NewClient\<close> leaves in the struct, written field by field.\<close>

definition with_defaults :: "Config \<Rightarrow> Config" where
  "with_defaults g =
     \<lparr>Username = Username g, Password = Password g,
      BaseURL = (if BaseURL g = [] then ''https://publication-bdds.apps.epo.org'' else BaseURL g),
      UserAgent = (if UserAgent g = [] then ''PatentDev/BDDS/1.0'' else UserAgent g),
      MaxRetries = (if MaxRetries g = 0 then 3 else MaxRetries g),
      RetryDelay = (if RetryDelay g = 0 then 1 else RetryDelay g),
      Timeout = (if Timeout g = 0 then 30 else Timeout g)\<rparr>"

text \<open>
  \<open>undecorated cfg w w'\<close>: between the states \<open>w\<close> and \<open>w'\<close> the wire only grew, and
  every request added has no \<^verbatim>\<open>Authorization\<close> header, carries the configured
  \<^verbatim>\<open>User-Agent\<close>, and is not the token request of \<^verbatim>\<open>authenticate\<close>.
\<close>

definition undecorated :: "Config \<Rightarrow> world \<Rightarrow> world \<Rightarrow> bool" where
  "undecorated cfg w w' =
     (\<exists>new. wire w' = wire w @ new
        \<and> (\<forall>r \<in> set new. Header_Get r ''Authorization'' = None
                           \<and> Header_Get r ''User-Agent'' = Some (UserAgent cfg)
                           \<and> r \<noteq> tokenRequest cfg))"

text \<open>The number of GET requests that were handed to the transport: one for each attempt
  of a resource operation that got as far as sending its request (the token request
  of \<^verbatim>\<open>authenticate\<close> is a POST).\<close>

definition gets :: "world \<Rightarrow> nat" where
  "gets w = length (filter (\<lambda>r. Method r = ''GET'') (wire w))"

text \<open>
  Case-insensitive exact comparison of two names, read as UTF-8: \<open>runes\<close> is the
  sequence of code points of a string, every byte that belongs to no valid encoding
  counting as \<open>U+FFFD\<close>; two code points are \<open>case_variants\<close> when they are equal, or
  the two cases of an ASCII letter, or, one of them being beyond ASCII, in one orbit
  of the Unicode simple case folding; two names are equal up to case when their code
  points are case variants position by position.
\<close>

function runes :: "string \<Rightarrow> nat list" where
  "runes s = (if s = [] then []
              else (case DecodeRuneInString s of (r, n) \<Rightarrow> r # runes (drop n s)))"
  by pat_completeness auto
termination
proof (relation "measure length")
  show "wf (measure length)" by simp
next
  fix s :: string and x y :: nat
  assume "s \<noteq> []" "(x, y) = DecodeRuneInString s"
  then have "0 < y"
    by (cases s) (auto simp: Let_def split: if_splits)
  with \<open>s \<noteq> []\<close> show "(drop y s, s) \<in> measure length"
    by simp
qed

declare runes.simps [simp del]





section \<open>Theorems\<close>

subsection \<open>Construction\<close>

lemma wrap64_id: "- (2 ^ 63) \<le> x \<Longrightarrow> x < 2 ^ 63 \<Longrightarrow> wrap64 x = x"
  by (simp add: wrap64_def)

lemma seconds_exact:
  assumes "- (2 ^ 63) \<le> n * 1000000000" and "n * 1000000000 < 2 ^ 63"
  shows "seconds n = n * Second"
proof -
  have "- (2 ^ 63) \<le> n" "n < 2 ^ 63" using assms by auto
  then have "wrap64 n = n" by (rule wrap64_id)
  with assms show ?thesis by (simp add: seconds_def Second_def wrap64_id)
qed

lemma Config_if_update:
  "(if b1 then g\<lparr>BaseURL := v1\<rparr> else g) = g\<lparr>BaseURL := if b1 then v1 else BaseURL g\<rparr>"
  "(if b2 then g\<lparr>UserAgent := v2\<rparr> else g) = g\<lparr>UserAgent := if b2 then v2 else UserAgent g\<rparr>"
  "(if b3 then g\<lparr>MaxRetries := v3\<rparr> else g) = g\<lparr>MaxRetries := if b3 then v3 else MaxRetries g\<rparr>"
  "(if b4 then g\<lparr>RetryDelay := v4\<rparr> else g) = g\<lparr>RetryDelay := if b4 then v4 else RetryDelay g\<rparr>"
  "(if b5 then g\<lparr>Timeout := v5\<rparr> else g) = g\<lparr>Timeout := if b5 then v5 else Timeout g\<rparr>"
  by simp_all

lemma defaults_chain:
  "(let config2 = (if BaseURL g = [] then g\<lparr>BaseURL := BaseURL DefaultConfig\<rparr> else g);
        config3 = (if UserAgent config2 = [] then config2\<lparr>UserAgent := UserAgent DefaultConfig\<rparr> else config2);
        config4 = (if MaxRetries config3 = 0 then config3\<lparr>MaxRetries := MaxRetries DefaultConfig\<rparr> else config3);
        config5 = (if RetryDelay config4 = 0 then config4\<lparr>RetryDelay := RetryDelay DefaultConfig\<rparr> else config4);
        config6 = (if Timeout config5 = 0 then config5\<lparr>Timeout := Timeout DefaultConfig\<rparr> else config5)
    in f config6) = f (with_defaults g)"
proof -
  have d: "BaseURL DefaultConfig = ''https://publication-bdds.apps.epo.org''"
    "UserAgent DefaultConfig = ''PatentDev/BDDS/1.0''"
    "MaxRetries DefaultConfig = 3" "RetryDelay DefaultConfig = 1" "Timeout DefaultConfig = 30"
    by (simp_all add: DefaultConfig_def)
  show ?thesis
    unfolding Let_def Config_if_update d
    by (rule arg_cong [where f = f], cases g)
       (simp add: with_defaults_def split del: if_split cong: if_cong)
qed

lemma store_defaults_chain:
  assumes a: "a < length h0"
  shows "(let h1 = (if BaseURL (h0 ! a) = ''''
               then h0[a := (h0 ! a)\<lparr>BaseURL := BaseURL DefaultConfig\<rparr>] else h0);
         h2 = (if UserAgent (h1 ! a) = ''''
               then h1[a := (h1 ! a)\<lparr>UserAgent := UserAgent DefaultConfig\<rparr>] else h1);
         h3 = (if MaxRetries (h2 ! a) = 0
               then h2[a := (h2 ! a)\<lparr>MaxRetries := MaxRetries DefaultConfig\<rparr>] else h2);
         h4 = (if RetryDelay (h3 ! a) = 0
               then h3[a := (h3 ! a)\<lparr>RetryDelay := RetryDelay DefaultConfig\<rparr>] else h3);
         h5 = (if Timeout (h4 ! a) = 0
               then h4[a := (h4 ! a)\<lparr>Timeout := Timeout DefaultConfig\<rparr>] else h4)
     in f h5) = f (h0[a := with_defaults (h0 ! a)])"
proof -
  define g0 where "g0 = h0 ! a"
  define g1 where "g1 = (if BaseURL g0 = [] then g0\<lparr>BaseURL := BaseURL DefaultConfig\<rparr> else g0)"
  define g2 where "g2 = (if UserAgent g1 = [] then g1\<lparr>UserAgent := UserAgent DefaultConfig\<rparr> else g1)"
  define g3 where "g3 = (if MaxRetries g2 = 0 then g2\<lparr>MaxRetries := MaxRetries DefaultConfig\<rparr> else g2)"
  define g4 where "g4 = (if RetryDelay g3 = 0 then g3\<lparr>RetryDelay := RetryDelay DefaultConfig\<rparr> else g3)"
  define g5 where "g5 = (if Timeout g4 = 0 then g4\<lparr>Timeout := Timeout DefaultConfig\<rparr> else g4)"
  define h1 where "h1 = (if BaseURL (h0 ! a) = ''''
               then h0[a := (h0 ! a)\<lparr>BaseURL := BaseURL DefaultConfig\<rparr>] else h0)"
  define h2 where "h2 = (if UserAgent (h1 ! a) = ''''
               then h1[a := (h1 ! a)\<lparr>UserAgent := UserAgent DefaultConfig\<rparr>] else h1)"
  define h3 where "h3 = (if MaxRetries (h2 ! a) = 0
               then h2[a := (h2 ! a)\<lparr>MaxRetries := MaxRetries DefaultConfig\<rparr>] else h2)"
  define h4 where "h4 = (if RetryDelay (h3 ! a) = 0
               then h3[a := (h3 ! a)\<lparr>RetryDelay := RetryDelay DefaultConfig\<rparr>] else h3)"
  define h5 where "h5 = (if Timeout (h4 ! a) = 0
               then h4[a := (h4 ! a)\<lparr>Timeout := Timeout DefaultConfig\<rparr>] else h4)"
  have 1: "h1 = h0[a := g1]"
    unfolding h1_def using a by (simp add: g1_def g0_def)
  have 2: "h2 = h0[a := g2]"
    unfolding h2_def 1 using a by (simp add: g2_def)
  have 3: "h3 = h0[a := g3]"
    unfolding h3_def 2 using a by (simp add: g3_def)
  have 4: "h4 = h0[a := g4]"
    unfolding h4_def 3 using a by (simp add: g4_def)
  have 5: "h5 = h0[a := g5]"
    unfolding h5_def 4 using a by (simp add: g5_def)
  have "g5 = with_defaults g0"
    using defaults_chain [of g0 "\<lambda>x. x"]
    unfolding Let_def g5_def g4_def g3_def g2_def g1_def by simp
  with 5 have "h5 = h0[a := with_defaults (h0 ! a)]" by (simp add: g0_def)
  then show ?thesis
    unfolding Let_def h5_def h4_def h3_def h2_def h1_def by simp
qed

lemma NewClient_unfold:
  assumes "a < length h0"
      and "(case config0 of None \<Rightarrow> (length h, h @ [DefaultConfig]) | Some a' \<Rightarrow> (a', h)) = (a, h0)"
  shows "NewClient newGenerated config0 h =
     (case newGenerated (BaseURL (with_defaults (h0 ! a)) @ ''/bdds/bdds-bff-service/prod/api'') of
        Some err \<Rightarrow> (Inl (WrapError ''failed to create client: '' (ErrorString err)),
                     h0[a := with_defaults (h0 ! a)])
      | None \<Rightarrow>
          (Inr \<lparr>token = [], tokenExpiry = 0, config = a,
                httpClient_Timeout = seconds (Timeout (with_defaults (h0 ! a)))\<rparr>,
           h0[a := with_defaults (h0 ! a)]))"
proof -
  have "NewClient newGenerated config0 h =
     (let h1 = (if BaseURL (h0 ! a) = ''''
               then h0[a := (h0 ! a)\<lparr>BaseURL := BaseURL DefaultConfig\<rparr>] else h0);
         h2 = (if UserAgent (h1 ! a) = ''''
               then h1[a := (h1 ! a)\<lparr>UserAgent := UserAgent DefaultConfig\<rparr>] else h1);
         h3 = (if MaxRetries (h2 ! a) = 0
               then h2[a := (h2 ! a)\<lparr>MaxRetries := MaxRetries DefaultConfig\<rparr>] else h2);
         h4 = (if RetryDelay (h3 ! a) = 0
               then h3[a := (h3 ! a)\<lparr>RetryDelay := RetryDelay DefaultConfig\<rparr>] else h3);
         h5 = (if Timeout (h4 ! a) = 0
               then h4[a := (h4 ! a)\<lparr>Timeout := Timeout DefaultConfig\<rparr>] else h4)
     in case newGenerated (BaseURL (h5 ! a) @ ''/bdds/bdds-bff-service/prod/api'') of
          Some err \<Rightarrow> (Inl (WrapError ''failed to create client: '' (ErrorString err)), h5)
        | None \<Rightarrow> (Inr \<lparr>token = '''', tokenExpiry = 0, config = a,
                          httpClient_Timeout = seconds (Timeout (h5 ! a))\<rparr>, h5))"
    unfolding NewClient_def assms(2)
      Let_def [of "(a, h0)"] prod.case ..
  also have "\<dots> = (case newGenerated (BaseURL (h0[a := with_defaults (h0 ! a)] ! a) @ ''/bdds/bdds-bff-service/prod/api'') of
          Some err \<Rightarrow> (Inl (WrapError ''failed to create client: '' (ErrorString err)), h0[a := with_defaults (h0 ! a)])
        | None \<Rightarrow> (Inr \<lparr>token = '''', tokenExpiry = 0, config = a,
                          httpClient_Timeout = seconds (Timeout (h0[a := with_defaults (h0 ! a)] ! a))\<rparr>,
                    h0[a := with_defaults (h0 ! a)]))"
    by (rule store_defaults_chain [OF assms(1)])
  finally show ?thesis
    unfolding nth_list_update_eq [OF assms(1)] .
qed

lemma with_defaults_DefaultConfig: "with_defaults DefaultConfig = DefaultConfig"
  by (simp add: with_defaults_def DefaultConfig_def)

lemma Timeout_in_range:
  assumes "0 < t" and "t * 1000000000 < 2 ^ 63"
  shows "seconds t = t * Second" and "0 < seconds t"
proof -
  from assms have "- (2 ^ 63) \<le> t * 1000000000" by simp
  from seconds_exact [OF this assms(2)] show "seconds t = t * Second" .
  with assms(1) show "0 < seconds t" by (simp add: Second_def)
qed

text \<open>
  C10 (amended).  \<^verbatim>\<open>NewClient\<close> replaces every zero-valued field of the configuration
  it is given (empty \<open>BaseURL\<close>, empty \<open>UserAgent\<close>, \<open>MaxRetries = 0\<close>, \<open>RetryDelay = 0\<close>,
  \<open>Timeout = 0\<close>) by its default (the base URL, \<open>PatentDev/BDDS/1.0\<close>, 3, 1, 30), in
  the caller's struct itself, keeps every other field, and keeps the caller's pointer
  in the client; for a nil configuration the client gets a new struct holding the
  whole default configuration.  It returns the client exactly when the generated
  constructor reports no error.  So the struct the client points to has, when
  \<^verbatim>\<open>NewClient\<close> returns, no zero in \<open>MaxRetries\<close>, \<open>RetryDelay\<close> and \<open>Timeout\<close> (negative
  values are kept), and the time-out of the HTTP client is \<open>Timeout\<close> seconds as long
  as these fit the int64 nanosecond count.
\<close>

theorem NewClient_defaults:
  assumes "\<forall>a. config0 = Some a \<longrightarrow> a < length h"
  shows "(case config0 of
            None \<Rightarrow>
              NewClient newGenerated None h =
                (case newGenerated ''https://publication-bdds.apps.epo.org/bdds/bdds-bff-service/prod/api'' of
                   Some err \<Rightarrow> Inl (WrapError ''failed to create client: '' (ErrorString err))
                 | None \<Rightarrow> Inr \<lparr>token = [], tokenExpiry = 0, config = length h,
                                  httpClient_Timeout = 30 * 1000000000\<rparr>,
                 h @ [DefaultConfig])
          | Some a \<Rightarrow>
              snd (NewClient newGenerated (Some a) h) =
                h[a := \<lparr>Username = Username (h ! a), Password = Password (h ! a),
                        BaseURL = (if BaseURL (h ! a) = [] then ''https://publication-bdds.apps.epo.org''
                                   else BaseURL (h ! a)),
                        UserAgent = (if UserAgent (h ! a) = [] then ''PatentDev/BDDS/1.0''
                                     else UserAgent (h ! a)),
                        MaxRetries = (if MaxRetries (h ! a) = 0 then 3 else MaxRetries (h ! a)),
                        RetryDelay = (if RetryDelay (h ! a) = 0 then 1 else RetryDelay (h ! a)),
                        Timeout = (if Timeout (h ! a) = 0 then 30 else Timeout (h ! a))\<rparr>]
              \<and> fst (NewClient newGenerated (Some a) h) =
                  (case newGenerated (BaseURL (snd (NewClient newGenerated (Some a) h) ! a)
                                        @ ''/bdds/bdds-bff-service/prod/api'') of
                     Some err \<Rightarrow> Inl (WrapError ''failed to create client: '' (ErrorString err))
                   | None \<Rightarrow>
                       Inr \<lparr>token = [], tokenExpiry = 0, config = a,
                            httpClient_Timeout =
                              seconds (Timeout (snd (NewClient newGenerated (Some a) h) ! a))\<rparr>))
       \<and> (\<forall>c. fst (NewClient newGenerated config0 h) = Inr c \<longrightarrow>
             config c = (case config0 of None \<Rightarrow> length h | Some a \<Rightarrow> a)
             \<and> config c < length (snd (NewClient newGenerated config0 h))
             \<and> MaxRetries (snd (NewClient newGenerated config0 h) ! config c) \<noteq> 0
             \<and> RetryDelay (snd (NewClient newGenerated config0 h) ! config c) \<noteq> 0
             \<and> Timeout (snd (NewClient newGenerated config0 h) ! config c) \<noteq> 0
             \<and> BaseURL (snd (NewClient newGenerated config0 h) ! config c) \<noteq> []
             \<and> UserAgent (snd (NewClient newGenerated config0 h) ! config c) \<noteq> []
             \<and> httpClient_Timeout c = seconds (Timeout (snd (NewClient newGenerated config0 h) ! config c))
             \<and> (0 < Timeout (snd (NewClient newGenerated config0 h) ! config c)
                 \<and> Timeout (snd (NewClient newGenerated config0 h) ! config c) * 1000000000 < 2 ^ 63
                \<longrightarrow> httpClient_Timeout c
                      = Timeout (snd (NewClient newGenerated config0 h) ! config c) * 1000000000
                    \<and> 0 < httpClient_Timeout c))"
proof -
  obtain a h0 where ah: "(case config0 of None \<Rightarrow> (length h, h @ [DefaultConfig]) | Some a' \<Rightarrow> (a', h)) = (a, h0)"
    by (cases "case config0 of None \<Rightarrow> (length h, h @ [DefaultConfig]) | Some a' \<Rightarrow> (a', h)")
  have a: "a < length h0"
    using ah assms by (cases config0) auto
  note unfold = NewClient_unfold [OF a ah, of newGenerated]
  define g where "g = with_defaults (h0 ! a)"
  have res: "snd (NewClient newGenerated config0 h) = h0[a := g]"
    "fst (NewClient newGenerated config0 h) =
       (case newGenerated (BaseURL g @ ''/bdds/bdds-bff-service/prod/api'') of
          Some err \<Rightarrow> Inl (WrapError ''failed to create client: '' (ErrorString err))
        | None \<Rightarrow> Inr \<lparr>token = [], tokenExpiry = 0, config = a, httpClient_Timeout = seconds (Timeout g)\<rparr>)"
    unfolding unfold g_def by (simp_all split: option.splits)
  have at: "h0[a := g] ! a = g" using a by simp
  have nz: "MaxRetries g \<noteq> 0" "RetryDelay g \<noteq> 0" "Timeout g \<noteq> 0" "BaseURL g \<noteq> []" "UserAgent g \<noteq> []"
    by (simp_all add: g_def with_defaults_def)
  have first: "case config0 of
            None \<Rightarrow>
              NewClient newGenerated None h =
                (case newGenerated ''https://publication-bdds.apps.epo.org/bdds/bdds-bff-service/prod/api'' of
                   Some err \<Rightarrow> Inl (WrapError ''failed to create client: '' (ErrorString err))
                 | None \<Rightarrow> Inr \<lparr>token = [], tokenExpiry = 0, config = length h,
                                  httpClient_Timeout = 30 * 1000000000\<rparr>,
                 h @ [DefaultConfig])
          | Some a \<Rightarrow>
              snd (NewClient newGenerated (Some a) h) =
                h[a := \<lparr>Username = Username (h ! a), Password = Password (h ! a),
                        BaseURL = (if BaseURL (h ! a) = [] then ''https://publication-bdds.apps.epo.org''
                                   else BaseURL (h ! a)),
                        UserAgent = (if UserAgent (h ! a) = [] then ''PatentDev/BDDS/1.0''
                                     else UserAgent (h ! a)),
                        MaxRetries = (if MaxRetries (h ! a) = 0 then 3 else MaxRetries (h ! a)),
                        RetryDelay = (if RetryDelay (h ! a) = 0 then 1 else RetryDelay (h ! a)),
                        Timeout = (if Timeout (h ! a) = 0 then 30 else Timeout (h ! a))\<rparr>]
              \<and> fst (NewClient newGenerated (Some a) h) =
                  (case newGenerated (BaseURL (snd (NewClient newGenerated (Some a) h) ! a)
                                        @ ''/bdds/bdds-bff-service/prod/api'') of
                     Some err \<Rightarrow> Inl (WrapError ''failed to create client: '' (ErrorString err))
                   | None \<Rightarrow>
                       Inr \<lparr>token = [], tokenExpiry = 0, config = a,
                            httpClient_Timeout =
                              seconds (Timeout (snd (NewClient newGenerated (Some a) h) ! a))\<rparr>)"
  proof (cases config0)
    case None
    with ah have e: "a = length h" "h0 = h @ [DefaultConfig]" by simp_all
    have g: "g = DefaultConfig" by (simp add: g_def e with_defaults_DefaultConfig)
    have "seconds (Timeout DefaultConfig) = 30 * 1000000000"
      by (simp add: DefaultConfig_def seconds_def wrap64_def Second_def)
    moreover have "BaseURL DefaultConfig @ ''/bdds/bdds-bff-service/prod/api''
        = ''https://publication-bdds.apps.epo.org/bdds/bdds-bff-service/prod/api''"
      by (simp add: DefaultConfig_def)
    ultimately show ?thesis
      using res unfolding None g e
      by (simp add: prod_eq_iff split: option.splits)
  next
    case (Some a')
    with ah have e: "a = a'" "h0 = h" by simp_all
    have s: "snd (NewClient newGenerated (Some a') h) = h[a' := g]"
      using res(1) Some e by simp
    have f: "fst (NewClient newGenerated (Some a') h) =
       (case newGenerated (BaseURL g @ ''/bdds/bdds-bff-service/prod/api'') of
          Some err \<Rightarrow> Inl (WrapError ''failed to create client: '' (ErrorString err))
        | None \<Rightarrow> Inr \<lparr>token = [], tokenExpiry = 0, config = a', httpClient_Timeout = seconds (Timeout g)\<rparr>)"
      using res(2) unfolding Some e by simp
    have at': "h[a' := g] ! a' = g" using at e by simp
    have g': "\<lparr>Username = Username (h ! a'), Password = Password (h ! a'),
                        BaseURL = (if BaseURL (h ! a') = [] then ''https://publication-bdds.apps.epo.org''
                                   else BaseURL (h ! a')),
                        UserAgent = (if UserAgent (h ! a') = [] then ''PatentDev/BDDS/1.0''
                                     else UserAgent (h ! a')),
                        MaxRetries = (if MaxRetries (h ! a') = 0 then 3 else MaxRetries (h ! a')),
                        RetryDelay = (if RetryDelay (h ! a') = 0 then 1 else RetryDelay (h ! a')),
                        Timeout = (if Timeout (h ! a') = 0 then 30 else Timeout (h ! a'))\<rparr> = g"
      unfolding g_def e with_defaults_def ..
    show ?thesis
      unfolding Some option.case g' s at' f by (rule conjI) (rule refl)+
  qed
  have second: "\<forall>c. fst (NewClient newGenerated config0 h) = Inr c \<longrightarrow>
             config c = (case config0 of None \<Rightarrow> length h | Some a \<Rightarrow> a)
             \<and> config c < length (snd (NewClient newGenerated config0 h))
             \<and> MaxRetries (snd (NewClient newGenerated config0 h) ! config c) \<noteq> 0
             \<and> RetryDelay (snd (NewClient newGenerated config0 h) ! config c) \<noteq> 0
             \<and> Timeout (snd (NewClient newGenerated config0 h) ! config c) \<noteq> 0
             \<and> BaseURL (snd (NewClient newGenerated config0 h) ! config c) \<noteq> []
             \<and> UserAgent (snd (NewClient newGenerated config0 h) ! config c) \<noteq> []
             \<and> httpClient_Timeout c = seconds (Timeout (snd (NewClient newGenerated config0 h) ! config c))
             \<and> (0 < Timeout (snd (NewClient newGenerated config0 h) ! config c)
                 \<and> Timeout (snd (NewClient newGenerated config0 h) ! config c) * 1000000000 < 2 ^ 63
                \<longrightarrow> httpClient_Timeout c
                      = Timeout (snd (NewClient newGenerated config0 h) ! config c) * 1000000000
                    \<and> 0 < httpClient_Timeout c)"
  proof (intro allI impI)
    fix c
    assume "fst (NewClient newGenerated config0 h) = Inr c"
    with res(2) have c: "config c = a" "httpClient_Timeout c = seconds (Timeout g)"
      by (auto split: option.splits)
    have a0: "a = (case config0 of None \<Rightarrow> length h | Some a \<Rightarrow> a)"
      using ah by (cases config0) auto
    have rng: "0 < Timeout g \<and> Timeout g * 1000000000 < 2 ^ 63
                \<longrightarrow> seconds (Timeout g) = Timeout g * 1000000000 \<and> 0 < seconds (Timeout g)"
      using Timeout_in_range [of "Timeout g"] by (simp add: Second_def)
    show "config c = (case config0 of None \<Rightarrow> length h | Some a \<Rightarrow> a)
             \<and> config c < length (snd (NewClient newGenerated config0 h))
             \<and> MaxRetries (snd (NewClient newGenerated config0 h) ! config c) \<noteq> 0
             \<and> RetryDelay (snd (NewClient newGenerated config0 h) ! config c) \<noteq> 0
             \<and> Timeout (snd (NewClient newGenerated config0 h) ! config c) \<noteq> 0
             \<and> BaseURL (snd (NewClient newGenerated config0 h) ! config c) \<noteq> []
             \<and> UserAgent (snd (NewClient newGenerated config0 h) ! config c) \<noteq> []
             \<and> httpClient_Timeout c = seconds (Timeout (snd (NewClient newGenerated config0 h) ! config c))
             \<and> (0 < Timeout (snd (NewClient newGenerated config0 h) ! config c)
                 \<and> Timeout (snd (NewClient newGenerated config0 h) ! config c) * 1000000000 < 2 ^ 63
                \<longrightarrow> httpClient_Timeout c
                      = Timeout (snd (NewClient newGenerated config0 h) ! config c) * 1000000000
                    \<and> 0 < httpClient_Timeout c)"
      unfolding res(1) c at using nz a a0 [symmetric] rng by simp
  qed
  from first second show ?thesis by (rule conjI)
qed

theorem NewClient_defaults_witness:
  "NewClient generated_ok (Some 0) [zeroes]
     = (Inr \<lparr>token = '''', tokenExpiry = 0, config = 0, httpClient_Timeout = 30000000000\<rparr>,
        [\<lparr>Username = ''u'', Password = ''p'',
          BaseURL = ''https://publication-bdds.apps.epo.org'',
          UserAgent = ''PatentDev/BDDS/1.0'',
          MaxRetries = 3, RetryDelay = 1, Timeout = 30\<rparr>])
   \<and> NewClient generated_ok None [zeroes]
     = (Inr \<lparr>token = '''', tokenExpiry = 0, config = 1, httpClient_Timeout = 30000000000\<rparr>,
        [zeroes, DefaultConfig])"
proof -
  have v: "\<forall>a. Some (0 :: nat) = Some a \<longrightarrow> a < length [zeroes]"
    "\<forall>a. (None :: nat option) = Some a \<longrightarrow> a < length [zeroes]"
    by simp_all
  note some = NewClient_defaults [OF v(1), of generated_ok]
  note none = NewClient_defaults [OF v(2), of generated_ok]
  from some have 1: "NewClient generated_ok (Some 0) [zeroes]
     = (Inr \<lparr>token = '''', tokenExpiry = 0, config = 0, httpClient_Timeout = 30000000000\<rparr>,
        [\<lparr>Username = ''u'', Password = ''p'',
          BaseURL = ''https://publication-bdds.apps.epo.org'',
          UserAgent = ''PatentDev/BDDS/1.0'',
          MaxRetries = 3, RetryDelay = 1, Timeout = 30\<rparr>])"
    by (simp add: prod_eq_iff generated_ok_def zeroes_def seconds_def wrap64_def Second_def)
  from none have 2: "NewClient generated_ok None [zeroes]
     = (Inr \<lparr>token = '''', tokenExpiry = 0, config = 1, httpClient_Timeout = 30000000000\<rparr>,
        [zeroes, DefaultConfig])"
    by (simp add: generated_ok_def)
  from 1 2 show ?thesis by simp
qed

text \<open>
  After construction the caller still holds the pointer: its assignment
  \<^verbatim>\<open>cfg.MaxRetries = 0\<close> gives the client zero retries (one attempt, no sleep).  And a
  \<open>Timeout\<close> of \<open>2 ^ 55\<close> seconds, not zero and so kept, gives the HTTP client the
  time-out 0.
\<close>

theorem NewClient_zero_after_construction:
  "MaxRetries (snd (NewClient generated_ok (Some 0) [zeroes]) ! 0) = 3
   \<and> config (projr (fst (NewClient generated_ok (Some 0) [zeroes]))) = 0
   \<and> MaxRetries (assign_MaxRetries 0 0 (snd (NewClient generated_ok (Some 0) [zeroes]))
                  ! config (projr (fst (NewClient generated_ok (Some 0) [zeroes])))) = 0
   \<and> retryableRequest
        (assign_MaxRetries 0 0 (snd (NewClient generated_ok (Some 0) [zeroes]))
           ! config (projr (fst (NewClient generated_ok (Some 0) [zeroes]))))
        (observed boom) (at_noon [] 0)
      = (Inl (WrapError ''failed after 0 retries: '' (ErrorString ''boom'')),
         (at_noon [] 0)\<lparr>timeline := [Returned (Some (ErrorString ''boom''))]\<rparr>)
   \<and> Timeout (snd (NewClient generated_ok (Some 0) [zeroes\<lparr>Timeout := 2 ^ 55\<rparr>]) ! 0) = 2 ^ 55
   \<and> httpClient_Timeout (projr (fst (NewClient generated_ok (Some 0) [zeroes\<lparr>Timeout := 2 ^ 55\<rparr>]))) = 0"
proof -
  have 1: "NewClient generated_ok (Some 0) [zeroes]
     = (Inr \<lparr>token = '''', tokenExpiry = 0, config = 0, httpClient_Timeout = 30000000000\<rparr>,
        [\<lparr>Username = ''u'', Password = ''p'',
          BaseURL = ''https://publication-bdds.apps.epo.org'',
          UserAgent = ''PatentDev/BDDS/1.0'',
          MaxRetries = 3, RetryDelay = 1, Timeout = 30\<rparr>])"
    by (subst NewClient_unfold [where a = 0 and ?h0.0 = "[zeroes]"])
       (simp_all add: generated_ok_def zeroes_def with_defaults_def seconds_def wrap64_def Second_def)
  have 2: "NewClient generated_ok (Some 0) [zeroes\<lparr>Timeout := 2 ^ 55\<rparr>]
     = (Inr \<lparr>token = '''', tokenExpiry = 0, config = 0, httpClient_Timeout = 0\<rparr>,
        [\<lparr>Username = ''u'', Password = ''p'',
          BaseURL = ''https://publication-bdds.apps.epo.org'',
          UserAgent = ''PatentDev/BDDS/1.0'',
          MaxRetries = 3, RetryDelay = 1, Timeout = 2 ^ 55\<rparr>])"
    by (subst NewClient_unfold [where a = 0 and ?h0.0 = "[zeroes\<lparr>Timeout := 2 ^ 55\<rparr>]"])
       (simp_all add: generated_ok_def zeroes_def with_defaults_def seconds_def wrap64_def Second_def)
  show ?thesis
    unfolding 1 2
    by (simp add: assign_MaxRetries_def retryableRequest_def retryLoop.simps observed_def boom_def
          at_noon_def Errorf_w_def itoa_def digits.simps Let_def)
qed

subsection \<open>The retry loop, unfolded\<close>

lemma retryLoop_exhausted:
  "\<not> attempt \<le> MaxRetries cfg \<Longrightarrow>
   retryLoop cfg fn attempt lastErr w =
     (Inl (Errorf_w (''failed after '' @ itoa (MaxRetries cfg) @ '' retries: '') lastErr), w)"
  by (subst retryLoop.simps) simp

lemma retryLoop_success:
  "attempt \<le> MaxRetries cfg \<Longrightarrow> fn w = (Inr r, w1) \<Longrightarrow>
   retryLoop cfg fn attempt lastErr w = (Inr r, w1)"
  by (subst retryLoop.simps) simp

lemma retryLoop_failure:
  "attempt \<le> MaxRetries cfg \<Longrightarrow> fn w = (Inl err, w1) \<Longrightarrow>
   retryLoop cfg fn attempt lastErr w =
     retryLoop cfg fn (attempt + 1) (Some err) (between_attempts cfg attempt err w1)"
  by (subst retryLoop.simps) (simp add: between_attempts_def Let_def)

lemma retryLoop_induct [consumes 0, case_names exhausted success failure]:
  assumes "\<And>attempt lastErr w. \<not> attempt \<le> MaxRetries cfg \<Longrightarrow> P attempt lastErr w"
      and "\<And>attempt lastErr w r w1.
             attempt \<le> MaxRetries cfg \<Longrightarrow> fn w = (Inr r, w1) \<Longrightarrow> P attempt lastErr w"
      and "\<And>attempt lastErr w err w1.
             attempt \<le> MaxRetries cfg \<Longrightarrow> fn w = (Inl err, w1) \<Longrightarrow>
             P (attempt + 1) (Some err) (between_attempts cfg attempt err w1) \<Longrightarrow>
             P attempt lastErr w"
  shows "P attempt lastErr w"
proof -
  have "\<forall>l v. n = nat (MaxRetries cfg + 1 - a) \<longrightarrow> P a l v" for n a
  proof (induction n arbitrary: a)
    case 0
    show ?case
    proof (intro allI impI)
      fix l v
      assume "0 = nat (MaxRetries cfg + 1 - a)"
      then have "\<not> a \<le> MaxRetries cfg" by simp
      then show "P a l v" by (rule assms(1))
    qed
  next
    case (Suc n)
    show ?case
    proof (intro allI impI)
      fix l v
      assume m: "Suc n = nat (MaxRetries cfg + 1 - a)"
      then have le: "a \<le> MaxRetries cfg" by simp
      obtain r w1 where f: "fn v = (r, w1)" by (cases "fn v")
      show "P a l v"
      proof (cases r)
        case (Inr x)
        with f have "fn v = (Inr x, w1)" by simp
        with le show ?thesis by (rule assms(2))
      next
        case (Inl err)
        have "n = nat (MaxRetries cfg + 1 - (a + 1))" using m by simp
        from Suc.IH [of "a + 1", rule_format, OF this]
        have step: "P (a + 1) (Some err) (between_attempts cfg a err w1)" .
        from f Inl have "fn v = (Inl err, w1)" by simp
        from le this step show ?thesis by (rule assms(3))
      qed
    qed
  qed
  then show ?thesis by simp
qed

lemma retryLoop_rel:
  assumes fn: "\<And>w. R w (snd (fn w))"
      and refl: "\<And>w. R w w"
      and trans: "\<And>a b c. R a b \<Longrightarrow> R b c \<Longrightarrow> R a c"
      and sleep: "\<And>d w. R w (time_Sleep d w)"
      and clear: "\<And>w. R w (w\<lparr>token := [], tokenExpiry := 0\<rparr>)"
  shows "R w (snd (retryLoop cfg fn attempt lastErr w))"
proof (induction attempt lastErr w rule: retryLoop_induct [of cfg _ fn])
  case (exhausted attempt lastErr w)
  then show ?case by (simp add: retryLoop_exhausted refl)
next
  case (success attempt lastErr w r w1)
  then show ?case using fn [of w] by (simp add: retryLoop_success)
next
  case (failure attempt lastErr w err w1)
  have "R w w1" using fn [of w] failure(2) by simp
  moreover have "R w1 (between_attempts cfg attempt err w1)"
    unfolding between_attempts_def Let_def
    by (auto intro: refl sleep clear trans [OF clear sleep])
  ultimately have "R w (between_attempts cfg attempt err w1)" by (rule trans)
  from trans [OF this failure(3)] show ?case
    using failure(1,2) by (simp add: retryLoop_failure)
qed

subsection \<open>Retry schedule\<close>

lemma backoff_in_range:
  assumes "\<bar>d\<bar> * m * 1000000000 < 2 ^ 63" and "0 \<le> a" and "a < m"
  shows "seconds (d * (a + 1)) = d * (a + 1) * Second"
proof -
  have "\<bar>d * (a + 1)\<bar> = \<bar>d\<bar> * (a + 1)" using assms(2) by (simp add: abs_mult)
  also have "\<dots> \<le> \<bar>d\<bar> * m" using assms(3) by (intro mult_left_mono) auto
  finally have "\<bar>d * (a + 1)\<bar> * 1000000000 \<le> \<bar>d\<bar> * m * 1000000000" by simp
  with assms(1) have "\<bar>d * (a + 1)\<bar> * 1000000000 < 2 ^ 63" by linarith
  then have "- (2 ^ 63) \<le> d * (a + 1) * 1000000000" "d * (a + 1) * 1000000000 < 2 ^ 63"
    by linarith+
  then show ?thesis by (rule seconds_exact)
qed

lemma observed_Inl:
  assumes "\<And>w. timeline (snd (fn w)) = timeline w" and "observed fn w = (Inl err, w1)"
  shows "timeline w1 = timeline w @ [Returned (Some err)]"
  using assms(2) assms(1) [of w] by (auto simp: observed_def split: prod.splits)

lemma observed_Inr:
  assumes "\<And>w. timeline (snd (fn w)) = timeline w" and "observed fn w = (Inr r, w1)"
  shows "timeline w1 = timeline w @ [Returned None]"
  using assms(2) assms(1) [of w] by (auto simp: observed_def split: prod.splits)

lemma between_attempts_timeline:
  "timeline (between_attempts cfg attempt err w1) =
     (if attempt < MaxRetries cfg
      then timeline w1 @ [Slept (seconds (RetryDelay cfg * (attempt + 1)))]
      else timeline w1)"
  by (simp add: between_attempts_def time_Sleep_def Let_def)

lemma retryLoop_schedule:
  assumes quiet: "\<And>w. timeline (snd (fn w)) = timeline w"
  shows "0 \<le> attempt \<longrightarrow>
     (case retryLoop cfg (observed fn) attempt lastErr w of
        (Inr r, w') \<Rightarrow>
          \<exists>errs. attempt + int (length errs) \<le> MaxRetries cfg
                 \<and> timeline w' = timeline w @ attempt_rounds cfg attempt errs @ [Returned None]
      | (Inl e, w') \<Rightarrow>
          if attempt \<le> MaxRetries cfg
          then \<exists>errs last. attempt + int (length errs) = MaxRetries cfg
                 \<and> timeline w' = timeline w @ attempt_rounds cfg attempt errs @ [Returned (Some last)]
                 \<and> e = WrapError (''failed after '' @ itoa (MaxRetries cfg) @ '' retries: '') last
          else e = Errorf_w (''failed after '' @ itoa (MaxRetries cfg) @ '' retries: '') lastErr \<and> w' = w)"
proof (induction attempt lastErr w rule: retryLoop_induct [of cfg _ "observed fn"])
  case (exhausted attempt lastErr w)
  then show ?case by (simp add: retryLoop_exhausted)
next
  case (success attempt lastErr w r w1)
  from observed_Inr [OF quiet success(2)]
  have "timeline w1 = timeline w @ attempt_rounds cfg attempt [] @ [Returned None]"
    by simp
  with success(1) have "\<exists>errs. attempt + int (length errs) \<le> MaxRetries cfg
        \<and> timeline w1 = timeline w @ attempt_rounds cfg attempt errs @ [Returned None]"
    by (intro exI [of _ "[]"]) simp
  then show ?case using success by (simp add: retryLoop_success)
next
  case (failure attempt lastErr w err w1)
  define b where "b = between_attempts cfg attempt err w1"
  define pfx where "pfx = ''failed after '' @ itoa (MaxRetries cfg) @ '' retries: ''"
  have unfold: "retryLoop cfg (observed fn) attempt lastErr w
                  = retryLoop cfg (observed fn) (attempt + 1) (Some err) b"
    using failure(1,2) by (simp add: retryLoop_failure b_def)
  have t1: "timeline w1 = timeline w @ [Returned (Some err)]"
    by (rule observed_Inl [OF quiet failure(2)])
  show ?case
  proof
    assume nonneg: "0 \<le> attempt"
    obtain res w' where res: "retryLoop cfg (observed fn) (attempt + 1) (Some err) b = (res, w')"
      by (cases "retryLoop cfg (observed fn) (attempt + 1) (Some err) b")
    note IH = failure(3) [folded b_def pfx_def, unfolded res, rule_format]
    show "case retryLoop cfg (observed fn) attempt lastErr w of
        (Inr r, w') \<Rightarrow>
          \<exists>errs. attempt + int (length errs) \<le> MaxRetries cfg
                 \<and> timeline w' = timeline w @ attempt_rounds cfg attempt errs @ [Returned None]
      | (Inl e, w') \<Rightarrow>
          if attempt \<le> MaxRetries cfg
          then \<exists>errs last. attempt + int (length errs) = MaxRetries cfg
                 \<and> timeline w' = timeline w @ attempt_rounds cfg attempt errs @ [Returned (Some last)]
                 \<and> e = WrapError (''failed after '' @ itoa (MaxRetries cfg) @ '' retries: '') last
          else e = Errorf_w (''failed after '' @ itoa (MaxRetries cfg) @ '' retries: '') lastErr \<and> w' = w"
    proof (cases "attempt < MaxRetries cfg")
      case True
      have tb: "timeline b = timeline w @ [Returned (Some err), Slept (seconds (RetryDelay cfg * (attempt + 1)))]"
        using True t1 by (simp add: b_def between_attempts_timeline)
      show ?thesis
      proof (cases res)
        case (Inr r)
        with IH nonneg obtain errs where
          "attempt + 1 + int (length errs) \<le> MaxRetries cfg"
          "timeline w' = timeline b @ attempt_rounds cfg (attempt + 1) errs @ [Returned None]"
          by auto
        then have "attempt + int (length (err # errs)) \<le> MaxRetries cfg
          \<and> timeline w' = timeline w @ attempt_rounds cfg attempt (err # errs) @ [Returned None]"
          by (simp add: tb)
        then have "\<exists>errs. attempt + int (length errs) \<le> MaxRetries cfg
          \<and> timeline w' = timeline w @ attempt_rounds cfg attempt errs @ [Returned None]"
          by (rule exI)
        then show ?thesis by (simp add: unfold res Inr)
      next
        case (Inl e)
        with IH nonneg True obtain errs last where
          "attempt + 1 + int (length errs) = MaxRetries cfg"
          "timeline w' = timeline b @ attempt_rounds cfg (attempt + 1) errs @ [Returned (Some last)]"
          "e = WrapError pfx last"
          by auto
        then have "attempt + int (length (err # errs)) = MaxRetries cfg
          \<and> timeline w' = timeline w @ attempt_rounds cfg attempt (err # errs) @ [Returned (Some last)]
          \<and> e = WrapError pfx last"
          by (simp add: tb)
        then have "\<exists>errs last. attempt + int (length errs) = MaxRetries cfg
          \<and> timeline w' = timeline w @ attempt_rounds cfg attempt errs @ [Returned (Some last)]
          \<and> e = WrapError pfx last"
          by blast
        then show ?thesis using failure(1) by (simp add: unfold res Inl pfx_def)
      qed
    next
      case False
      with failure(1) have eq: "attempt = MaxRetries cfg" by simp
      have tb: "timeline b = timeline w @ [Returned (Some err)]"
        using False t1 by (simp add: b_def between_attempts_timeline)
      have "retryLoop cfg (observed fn) (attempt + 1) (Some err) b = (Inl (WrapError pfx err), b)"
        using eq by (simp add: retryLoop_exhausted Errorf_w_def pfx_def)
      with res have r: "res = Inl (WrapError pfx err)" "w' = b" by simp_all
      have "attempt + int (length ([] :: error list)) = MaxRetries cfg
          \<and> timeline b = timeline w @ attempt_rounds cfg attempt [] @ [Returned (Some err)]
          \<and> WrapError pfx err = WrapError pfx err"
        using eq tb by simp
      then have "\<exists>errs last. attempt + int (length errs) = MaxRetries cfg
          \<and> timeline b = timeline w @ attempt_rounds cfg attempt errs @ [Returned (Some last)]
          \<and> WrapError pfx err = WrapError pfx last"
        by blast
      then show ?thesis using failure(1) by (simp add: unfold res r pfx_def)
    qed
  qed
qed

lemma attempt_rounds_in_range:
  assumes range: "\<bar>RetryDelay cfg\<bar> * MaxRetries cfg * 1000000000 < 2 ^ 63"
  shows "0 \<le> i \<Longrightarrow> i + int (length errs) \<le> MaxRetries cfg \<Longrightarrow>
         attempt_rounds cfg i errs = backoff_rounds (RetryDelay cfg) i errs"
proof (induction errs arbitrary: i)
  case Nil
  show ?case by simp
next
  case (Cons err errs)
  from Cons.prems have lt: "i < MaxRetries cfg" by simp
  have "seconds (RetryDelay cfg * (i + 1)) = RetryDelay cfg * (i + 1) * Second"
    by (rule backoff_in_range [OF range Cons.prems(1) lt])
  moreover have "attempt_rounds cfg (i + 1) errs = backoff_rounds (RetryDelay cfg) (i + 1) errs"
    using Cons.prems by (intro Cons.IH) simp_all
  ultimately show ?case by simp
qed

lemma retryLoop_ends_with_attempt:
  "retryLoop cfg fn attempt lastErr w = (Inr r, w') \<longrightarrow> (\<exists>v. fn v = (Inr r, w'))"
proof (induction attempt lastErr w rule: retryLoop_induct [of cfg _ fn])
  case (exhausted attempt lastErr w)
  then show ?case by (simp add: retryLoop_exhausted)
next
  case (success attempt lastErr w r1 w1)
  then show ?case by (auto simp: retryLoop_success)
next
  case (failure attempt lastErr w err w1)
  then show ?case by (simp add: retryLoop_failure)
qed

text \<open>
  C2 (amended).  For every operation that does not itself sleep, every
  \<open>0 \<le> MaxRetries < 2 ^ 63 - 1\<close> and every \<open>RetryDelay\<close>, \<^verbatim>\<open>retryableRequest\<close> calls the
  operation at most \<open>MaxRetries + 1\<close> times, returns at the first success (in the
  state that call left, without sleeping after it), retries whatever the errors
  are, and after \<open>MaxRetries + 1\<close> failures returns the last error wrapped as
  \<open>failed after MaxRetries retries\<close>.  After the failed attempt number \<open>i\<close> that is
  followed by another one it calls \<^verbatim>\<open>time.Sleep\<close> with the int64 nanosecond count
  \<open>seconds (RetryDelay * (i + 1))\<close>, which is \<open>RetryDelay * (i + 1)\<close> seconds whenever
  \<open>\<bar>RetryDelay\<bar> * MaxRetries * 10 ^ 9 < 2 ^ 63\<close>.
\<close>

theorem retryableRequest_schedule:
  assumes "0 \<le> MaxRetries cfg" and "MaxRetries cfg < 2 ^ 63 - 1"
      and "\<forall>w. timeline (snd (fn w)) = timeline w"
  shows "(case retryableRequest cfg (observed fn) w of
            (Inr r, w') \<Rightarrow>
              (\<exists>errs. int (length errs) \<le> MaxRetries cfg
                 \<and> timeline w' = timeline w @ attempt_rounds cfg 0 errs @ [Returned None])
              \<and> (\<exists>v. observed fn v = (Inr r, w'))
          | (Inl e, w') \<Rightarrow>
              \<exists>errs last. int (length errs) = MaxRetries cfg
                \<and> timeline w' = timeline w @ attempt_rounds cfg 0 errs @ [Returned (Some last)]
                \<and> e = WrapError (''failed after '' @ itoa (MaxRetries cfg) @ '' retries: '') last)
       \<and> (\<bar>RetryDelay cfg\<bar> * MaxRetries cfg * 1000000000 < 2 ^ 63 \<longrightarrow>
            (\<forall>errs. int (length errs) \<le> MaxRetries cfg \<longrightarrow>
               attempt_rounds cfg 0 errs = backoff_rounds (RetryDelay cfg) 0 errs))"
proof (intro conjI)
  have quiet: "\<And>w. timeline (snd (fn w)) = timeline w" using assms(3) by simp
  obtain res w' where run: "retryableRequest cfg (observed fn) w = (res, w')"
    by (cases "retryableRequest cfg (observed fn) w")
  from retryLoop_schedule [OF quiet, where cfg = cfg and attempt = 0 and lastErr = None and w = w]
  have sched: "case res of
        Inr r \<Rightarrow>
          \<exists>errs. int (length errs) \<le> MaxRetries cfg
                 \<and> timeline w' = timeline w @ attempt_rounds cfg 0 errs @ [Returned None]
      | Inl e \<Rightarrow>
          \<exists>errs last. int (length errs) = MaxRetries cfg
                 \<and> timeline w' = timeline w @ attempt_rounds cfg 0 errs @ [Returned (Some last)]
                 \<and> e = WrapError (''failed after '' @ itoa (MaxRetries cfg) @ '' retries: '') last"
    using assms(1) run by (cases res) (simp_all add: retryableRequest_def)
  have last: "res = Inr r \<Longrightarrow> \<exists>v. observed fn v = (Inr r, w')" for r
    using retryLoop_ends_with_attempt [of cfg "observed fn" 0 None w r w'] run
    by (simp add: retryableRequest_def)
  show "case retryableRequest cfg (observed fn) w of
            (Inr r, w') \<Rightarrow>
              (\<exists>errs. int (length errs) \<le> MaxRetries cfg
                 \<and> timeline w' = timeline w @ attempt_rounds cfg 0 errs @ [Returned None])
              \<and> (\<exists>v. observed fn v = (Inr r, w'))
          | (Inl e, w') \<Rightarrow>
              \<exists>errs last. int (length errs) = MaxRetries cfg
                \<and> timeline w' = timeline w @ attempt_rounds cfg 0 errs @ [Returned (Some last)]
                \<and> e = WrapError (''failed after '' @ itoa (MaxRetries cfg) @ '' retries: '') last"
    unfolding run using sched last by (cases res) simp_all
next
  show "\<bar>RetryDelay cfg\<bar> * MaxRetries cfg * 1000000000 < 2 ^ 63 \<longrightarrow>
            (\<forall>errs. int (length errs) \<le> MaxRetries cfg \<longrightarrow>
               attempt_rounds cfg 0 errs = backoff_rounds (RetryDelay cfg) 0 errs)"
    by (intro impI allI) (rule attempt_rounds_in_range, simp_all)
qed

lemma run_boom:
  "retryableRequest subscriber (observed boom) (at_noon [] 0) =
     (Inl (WrapError ''failed after 1 retries: '' (ErrorString ''boom'')),
      (at_noon [] 0)\<lparr>clock := 43201000000000,
         timeline := [Returned (Some (ErrorString ''boom'')), Slept 1000000000,
                      Returned (Some (ErrorString ''boom''))]\<rparr>)"
  by (simp add: retryableRequest_def retryLoop.simps observed_def boom_def subscriber_def
        at_noon_def time_Sleep_def seconds_def wrap64_def Second_def Errorf_w_def itoa_def
        digits.simps Let_def)

lemma run_flaky:
  "retryableRequest subscriber (observed flaky) (at_noon [] 0) =
     (Inr (),
      (at_noon [] 0)\<lparr>clock := 43201000000000,
         timeline := [Returned (Some (NotFoundError ''file'' ''1/2/3'')), Slept 1000000000,
                      Returned None]\<rparr>)"
  by (simp add: retryableRequest_def retryLoop.simps observed_def flaky_def subscriber_def
        at_noon_def time_Sleep_def seconds_def wrap64_def Second_def Let_def)

theorem retryableRequest_schedule_witness:
  "fst (retryableRequest subscriber (observed boom) (at_noon [] 0))
       = Inl (WrapError ''failed after 1 retries: '' (ErrorString ''boom''))
   \<and> timeline (snd (retryableRequest subscriber (observed boom) (at_noon [] 0)))
       = [Returned (Some (ErrorString ''boom'')), Slept 1000000000, Returned (Some (ErrorString ''boom''))]
   \<and> attempt_rounds subscriber 0 [ErrorString ''boom'']
       = backoff_rounds 1 0 [ErrorString ''boom'']
   \<and> fst (retryableRequest subscriber (observed flaky) (at_noon [] 0)) = Inr ()
   \<and> timeline (snd (retryableRequest subscriber (observed flaky) (at_noon [] 0)))
       = [Returned (Some (NotFoundError ''file'' ''1/2/3'')), Slept 1000000000, Returned None]
   \<and> (\<exists>errs last.
         timeline (snd (retryableRequest (subscriber\<lparr>RetryDelay := 10000000000\<rparr>) (observed boom) (at_noon [] 0)))
           = attempt_rounds (subscriber\<lparr>RetryDelay := 10000000000\<rparr>) 0 errs @ [Returned (Some last)]
         \<and> int (length errs) = 1)"
proof -
  have quiet: "\<forall>w. timeline (snd (boom w)) = timeline w" by (simp add: boom_def)
  have cfg: "MaxRetries subscriber = 1" "RetryDelay subscriber = 1" by (simp_all add: subscriber_def)
  have t0: "timeline (at_noon [] 0) = []" by (simp add: at_noon_def)
  have m: "0 \<le> MaxRetries subscriber" "MaxRetries subscriber < 2 ^ 63 - 1"
    by (simp_all add: cfg)
  have range: "\<bar>RetryDelay subscriber\<bar> * MaxRetries subscriber * 1000000000 < 2 ^ 63"
    by (simp add: cfg)
  note inst = retryableRequest_schedule [OF m quiet, of "at_noon [] 0"]
  from inst [THEN conjunct2, rule_format, OF range, of "[ErrorString ''boom'']"]
  have 1: "attempt_rounds subscriber 0 [ErrorString ''boom'']
       = backoff_rounds 1 0 [ErrorString ''boom'']"
    by (simp add: cfg)
  have m': "0 \<le> MaxRetries (subscriber\<lparr>RetryDelay := 10000000000\<rparr>)"
    "MaxRetries (subscriber\<lparr>RetryDelay := 10000000000\<rparr>) < 2 ^ 63 - 1"
    by (simp_all add: cfg)
  obtain res w' where run: "retryableRequest (subscriber\<lparr>RetryDelay := 10000000000\<rparr>) (observed boom) (at_noon [] 0) = (res, w')"
    by (cases "retryableRequest (subscriber\<lparr>RetryDelay := 10000000000\<rparr>) (observed boom) (at_noon [] 0)")
  have isl: "isl (fst (retryableRequest (subscriber\<lparr>RetryDelay := 10000000000\<rparr>) (observed boom) (at_noon [] 0)))"
    by (simp add: retryableRequest_def retryLoop.simps observed_def boom_def subscriber_def Let_def)
  from retryableRequest_schedule [OF m' quiet, of "at_noon [] 0", THEN conjunct1] isl
  have 2: "\<exists>errs last.
         timeline (snd (retryableRequest (subscriber\<lparr>RetryDelay := 10000000000\<rparr>) (observed boom) (at_noon [] 0)))
           = attempt_rounds (subscriber\<lparr>RetryDelay := 10000000000\<rparr>) 0 errs @ [Returned (Some last)]
         \<and> int (length errs) = 1"
    unfolding run by (cases res) (auto simp: cfg t0)
  from 1 2 show ?thesis by (simp add: run_boom run_flaky)
qed

text \<open>
  With \<open>RetryDelay = 10 ^ 10\<close> the nanosecond count leaves the int64 range: the loop
  hands \<^verbatim>\<open>time.Sleep\<close> a negative duration, not \<open>10 ^ 10\<close> seconds.
\<close>

theorem retryableRequest_sleep_overflow:
  "timeline (snd (retryableRequest (subscriber\<lparr>RetryDelay := 10000000000\<rparr>) (observed boom) (at_noon [] 0)))
     = [Returned (Some (ErrorString ''boom'')), Slept (- 8446744073709551616),
        Returned (Some (ErrorString ''boom''))]
   \<and> timeline (snd (retryableRequest (subscriber\<lparr>RetryDelay := 10000000000\<rparr>) (observed boom) (at_noon [] 0)))
     \<noteq> backoff_rounds 10000000000 0 [ErrorString ''boom''] @ [Returned (Some (ErrorString ''boom''))]"
  by (simp add: retryableRequest_def retryLoop.simps observed_def boom_def subscriber_def
        at_noon_def time_Sleep_def seconds_def wrap64_def Second_def Errorf_w_def Let_def)

subsection \<open>Authenticator\<close>

lemma Do_cases:
  assumes "RoundTrip e (length (wire w)) req = (elapsed, reply)"
  shows "Do e req w =
          (case reply of Inl msg \<Rightarrow> Inl (ErrorString msg) | Inr resp \<Rightarrow> Inr resp,
           w\<lparr>clock := clock w + int elapsed, wire := wire w @ [req]\<rparr>)"
  using assms by (simp add: Do_def)

lemma Do_wire: "wire (snd (Do e req w)) = wire w @ [req]"
  by (simp add: Do_def split: prod.splits)

lemma Do_session: "token (snd (Do e req w)) = token w" "tokenExpiry (snd (Do e req w)) = tokenExpiry w"
  by (simp_all add: Do_def split: prod.splits)

lemma authenticate_wire: "wire (snd (authenticate e cfg w)) = wire w @ [tokenRequest cfg]"
  using Do_wire [of e "tokenRequest cfg" w]
  by (auto simp: authenticate_def split: prod.splits sum.splits)

text \<open>
  C5.  \<^verbatim>\<open>authenticate\<close>: on an HTTP 200 response whose body decodes, the stored token
  becomes the response's access-token field and the stored expiry the current time
  plus exactly one hour, whatever the body says; on a non-200 response the error is
  an \<open>AuthError\<close> with the status code and the body as read; and on every failure
  (non-200, transport failure, malformed body) token and expiry stay as they were.
\<close>

theorem authenticate_outcomes:
  assumes "RoundTrip e (length (wire w)) (tokenRequest cfg) = (elapsed, reply)"
      and "authenticate e cfg w = (r, w')"
  shows "(case reply of
            Inl msg \<Rightarrow>
              r = Some (WrapError ''auth request failed: '' (ErrorString msg))
          | Inr resp \<Rightarrow>
              if StatusCode resp = 200
              then (case decodeToken e (Body resp) of
                      Inr tokenResp \<Rightarrow>
                        r = None \<and> token w' = AccessToken tokenResp
                        \<and> tokenExpiry w' = clock w' + 3600 * 1000000000
                    | Inl msg \<Rightarrow>
                        r = Some (WrapError ''failed to parse token response: '' (ErrorString msg)))
              else r = Some (AuthError (StatusCode resp) (fst (ReadAll (Body resp)))))
         \<and> (r \<noteq> None \<longrightarrow> token w' = token w \<and> tokenExpiry w' = tokenExpiry w)
         \<and> clock w' = clock w + int elapsed"
  using assms(2) unfolding authenticate_def Do_cases [OF assms(1)]
  by (auto simp: tokenTTL_def Hour_def Minute_def Second_def split: sum.splits if_splits)

lemma lab_RoundTrip: "RoundTrip (lab transport) = transport"
  by (simp add: lab_def)

lemma lab_decodeToken: "decodeToken (lab transport) = decode_table"
  by (simp add: lab_def)

theorem authenticate_outcomes_witness:
  "fst (authenticate (lab (on_script [replies 7 200 ''{access_token: T1, expires_in: 7200}''])) subscriber (at_noon ''old'' 5)) = None
   \<and> token (snd (authenticate (lab (on_script [replies 7 200 ''{access_token: T1, expires_in: 7200}''])) subscriber (at_noon ''old'' 5))) = ''T1''
   \<and> tokenExpiry (snd (authenticate (lab (on_script [replies 7 200 ''{access_token: T1, expires_in: 7200}''])) subscriber (at_noon ''old'' 5)))
       = 43200000000007 + 3600000000000
   \<and> fst (authenticate (lab (on_script [replies 7 401 ''denied''])) subscriber (at_noon ''old'' 5)) = Some (AuthError 401 ''denied'')
   \<and> token (snd (authenticate (lab (on_script [replies 7 401 ''denied''])) subscriber (at_noon ''old'' 5))) = ''old''
   \<and> tokenExpiry (snd (authenticate (lab (on_script [replies 7 401 ''denied''])) subscriber (at_noon ''old'' 5))) = 5
   \<and> fst (authenticate (lab (on_script [])) subscriber (at_noon ''old'' 5))
       = Some (WrapError ''auth request failed: '' (ErrorString ''connection refused''))
   \<and> token (snd (authenticate (lab (on_script [])) subscriber (at_noon ''old'' 5))) = ''old''
   \<and> fst (authenticate (lab (on_script [replies 7 200 ''<html>''])) subscriber (at_noon ''old'' 5))
       = Some (WrapError ''failed to parse token response: '' (ErrorString ''invalid character''))
   \<and> token (snd (authenticate (lab (on_script [replies 7 200 ''<html>''])) subscriber (at_noon ''old'' 5))) = ''old''"
proof -
  have w: "length (wire (at_noon ''old'' 5)) = 0" "clock (at_noon ''old'' 5) = 43200000000000"
    "token (at_noon ''old'' 5) = ''old''" "tokenExpiry (at_noon ''old'' 5) = 5"
    by (simp_all add: at_noon_def)
  have rt: "RoundTrip (lab (on_script [x])) (length (wire (at_noon ''old'' 5))) (tokenRequest subscriber) = x"
    "RoundTrip (lab (on_script [])) (length (wire (at_noon ''old'' 5))) (tokenRequest subscriber) = (0, Inl ''connection refused'')"
    for x
    by (simp_all add: lab_RoundTrip on_script_def w)
  note ok = authenticate_outcomes [OF rt(1) [of "replies 7 200 ''{access_token: T1, expires_in: 7200}''", unfolded replies_def] surjective_pairing]
  note denied = authenticate_outcomes [OF rt(1) [of "replies 7 401 ''denied''", unfolded replies_def] surjective_pairing]
  note refused = authenticate_outcomes [OF rt(2) surjective_pairing]
  note garbled = authenticate_outcomes [OF rt(1) [of "replies 7 200 ''<html>''", unfolded replies_def] surjective_pairing]
  from ok have 1: "fst (authenticate (lab (on_script [replies 7 200 ''{access_token: T1, expires_in: 7200}''])) subscriber (at_noon ''old'' 5)) = None
   \<and> token (snd (authenticate (lab (on_script [replies 7 200 ''{access_token: T1, expires_in: 7200}''])) subscriber (at_noon ''old'' 5))) = ''T1''
   \<and> tokenExpiry (snd (authenticate (lab (on_script [replies 7 200 ''{access_token: T1, expires_in: 7200}''])) subscriber (at_noon ''old'' 5)))
       = 43200000000007 + 3600000000000"
    by (simp add: replies_def lab_decodeToken decode_table_def w)
  from denied have 2: "fst (authenticate (lab (on_script [replies 7 401 ''denied''])) subscriber (at_noon ''old'' 5)) = Some (AuthError 401 ''denied'')
   \<and> token (snd (authenticate (lab (on_script [replies 7 401 ''denied''])) subscriber (at_noon ''old'' 5))) = ''old''
   \<and> tokenExpiry (snd (authenticate (lab (on_script [replies 7 401 ''denied''])) subscriber (at_noon ''old'' 5))) = 5"
    by (simp add: replies_def w)
  from refused have 3: "fst (authenticate (lab (on_script [])) subscriber (at_noon ''old'' 5))
       = Some (WrapError ''auth request failed: '' (ErrorString ''connection refused''))
   \<and> token (snd (authenticate (lab (on_script [])) subscriber (at_noon ''old'' 5))) = ''old''"
    by (simp add: w)
  from garbled have 4: "fst (authenticate (lab (on_script [replies 7 200 ''<html>''])) subscriber (at_noon ''old'' 5))
       = Some (WrapError ''failed to parse token response: '' (ErrorString ''invalid character''))
   \<and> token (snd (authenticate (lab (on_script [replies 7 200 ''<html>''])) subscriber (at_noon ''old'' 5))) = ''old''"
    by (simp add: replies_def lab_decodeToken decode_table_def w)
  from 1 2 3 4 show ?thesis by blast
qed

subsection \<open>Token manager\<close>

lemmas run_defs =
  retryableRequest_def retryLoop.simps Let_def time_Sleep_def seconds_def wrap64_def Second_def
  Errorf_w_def itoa_def digits.simps
  generated_Do_def authRequestEditor_def ensureValidToken_def authenticate_def Do_def
  tokenRefreshBuffer_def tokenTTL_def Hour_def Minute_def tokenRequest_def oauthURL_def clientID_def
  NewRequest_def server_def Header_Set_def Header_Get_def unexpected_status_def
  lab_def on_script_def always_def replies_def parse_table_def decode_table_def
  subscriber_def anonymous_def at_noon_def

text \<open>
  C3 (amended).  With credentials configured, \<^verbatim>\<open>ensureValidToken\<close> makes no
  authentication call (it changes nothing) when the stored token is non-empty and the
  current time plus the 5-minute refresh buffer is strictly before the stored expiry;
  otherwise it makes exactly one authentication call (one token request on the wire),
  and on successful return the stored expiry lies more than the refresh buffer ahead
  of the clock and the stored token is the access-token field of the identity
  endpoint's 200 response (non-empty exactly when that field is).
\<close>

theorem ensureValidToken_refresh:
  assumes "Username cfg \<noteq> []" and "Password cfg \<noteq> []"
      and "ensureValidToken e cfg w = (r, w')"
  shows "if token w \<noteq> [] \<and> clock w + 5 * 60 * 1000000000 < tokenExpiry w
         then r = None \<and> w' = w
         else wire w' = wire w @ [tokenRequest cfg]
              \<and> (r = None \<longrightarrow>
                    clock w' + 5 * 60 * 1000000000 < tokenExpiry w'
                    \<and> (\<exists>elapsed resp tokenResp.
                          RoundTrip e (length (wire w)) (tokenRequest cfg) = (elapsed, Inr resp)
                          \<and> StatusCode resp = 200
                          \<and> decodeToken e (Body resp) = Inr tokenResp
                          \<and> token w' = AccessToken tokenResp))"
proof (cases "token w \<noteq> [] \<and> clock w + 5 * 60 * 1000000000 < tokenExpiry w")
  case True
  with assms show ?thesis
    by (auto simp: ensureValidToken_def tokenRefreshBuffer_def Minute_def Second_def)
next
  case False
  with assms have a: "authenticate e cfg w = (r, w')"
    by (auto simp: ensureValidToken_def tokenRefreshBuffer_def Minute_def Second_def)
  obtain elapsed reply where rt: "RoundTrip e (length (wire w)) (tokenRequest cfg) = (elapsed, reply)"
    by (cases "RoundTrip e (length (wire w)) (tokenRequest cfg)")
  have wire: "wire w' = wire w @ [tokenRequest cfg]"
    using authenticate_wire [of e cfg w] a by simp
  have "r = None \<longrightarrow>
          clock w' + 5 * 60 * 1000000000 < tokenExpiry w'
          \<and> (\<exists>resp tokenResp. reply = Inr resp \<and> StatusCode resp = 200
                \<and> decodeToken e (Body resp) = Inr tokenResp \<and> token w' = AccessToken tokenResp)"
    using a unfolding authenticate_def Do_cases [OF rt]
    by (auto simp: tokenTTL_def Hour_def Minute_def Second_def split: sum.splits if_splits)
  with rt wire False show ?thesis by auto
qed

theorem ensureValidToken_refresh_witness:
  "ensureValidToken (lab (on_script [])) subscriber (at_noon ''tok'' 86400000000000)
     = (None, at_noon ''tok'' 86400000000000)
   \<and> fst (ensureValidToken (lab (on_script [replies 7 200 ''{access_token: T1, expires_in: 7200}'']))
            subscriber (at_noon ''tok'' 43200000000001)) = None
   \<and> wire (snd (ensureValidToken (lab (on_script [replies 7 200 ''{access_token: T1, expires_in: 7200}'']))
            subscriber (at_noon ''tok'' 43200000000001))) = [tokenRequest subscriber]
   \<and> token (snd (ensureValidToken (lab (on_script [replies 7 200 ''{access_token: T1, expires_in: 7200}'']))
            subscriber (at_noon ''tok'' 43200000000001))) = ''T1''
   \<and> clock (snd (ensureValidToken (lab (on_script [replies 7 200 ''{access_token: T1, expires_in: 7200}'']))
            subscriber (at_noon ''tok'' 43200000000001))) + 300000000000
       < tokenExpiry (snd (ensureValidToken (lab (on_script [replies 7 200 ''{access_token: T1, expires_in: 7200}'']))
            subscriber (at_noon ''tok'' 43200000000001)))"
proof -
  have creds: "Username subscriber \<noteq> []" "Password subscriber \<noteq> []"
    by (simp_all add: subscriber_def)
  note fresh = ensureValidToken_refresh [OF creds surjective_pairing,
      where e = "lab (on_script [])" and w = "at_noon ''tok'' 86400000000000"]
  note stale = ensureValidToken_refresh [OF creds surjective_pairing,
      where e = "lab (on_script [replies 7 200 ''{access_token: T1, expires_in: 7200}''])"
        and w = "at_noon ''tok'' 43200000000001"]
  have ok: "fst (ensureValidToken (lab (on_script [replies 7 200 ''{access_token: T1, expires_in: 7200}'']))
            subscriber (at_noon ''tok'' 43200000000001)) = None"
    by (simp add: run_defs)
  have w: "token (at_noon t x) = t" "tokenExpiry (at_noon t x) = x"
    "clock (at_noon t x) = 43200000000000" "wire (at_noon t x) = []" for t x
    by (simp_all add: at_noon_def)
  from fresh have 1: "ensureValidToken (lab (on_script [])) subscriber (at_noon ''tok'' 86400000000000)
     = (None, at_noon ''tok'' 86400000000000)"
    by (simp add: w prod_eq_iff)
  from stale ok have 2: "wire (snd (ensureValidToken (lab (on_script [replies 7 200 ''{access_token: T1, expires_in: 7200}'']))
            subscriber (at_noon ''tok'' 43200000000001))) = [tokenRequest subscriber]
   \<and> token (snd (ensureValidToken (lab (on_script [replies 7 200 ''{access_token: T1, expires_in: 7200}'']))
            subscriber (at_noon ''tok'' 43200000000001))) = ''T1''
   \<and> clock (snd (ensureValidToken (lab (on_script [replies 7 200 ''{access_token: T1, expires_in: 7200}'']))
            subscriber (at_noon ''tok'' 43200000000001))) + 300000000000
       < tokenExpiry (snd (ensureValidToken (lab (on_script [replies 7 200 ''{access_token: T1, expires_in: 7200}'']))
            subscriber (at_noon ''tok'' 43200000000001)))"
    by (auto simp: w lab_RoundTrip lab_decodeToken on_script_def replies_def decode_table_def)
  from 1 2 ok show ?thesis by blast
qed

text \<open>
  A 200 answer of the identity endpoint with the body \<open>{}\<close> is accepted:
  \<^verbatim>\<open>ensureValidToken\<close> returns success and the stored token is empty.
\<close>

theorem ensureValidToken_empty_token:
  "fst (ensureValidToken (lab (on_script [replies 7 200 ''{}''])) subscriber (at_noon ''old'' 5)) = None
   \<and> token (snd (ensureValidToken (lab (on_script [replies 7 200 ''{}''])) subscriber (at_noon ''old'' 5))) = []"
  by (simp add: run_defs)

subsection \<open>Product lookup\<close>

lemma retryLoop_same_error:
  assumes "\<And>v. fst (fn v) = Inl err"
  shows "fst (retryLoop cfg fn attempt lastErr w) =
           Inl (if attempt \<le> MaxRetries cfg
                then WrapError (''failed after '' @ itoa (MaxRetries cfg) @ '' retries: '') err
                else Errorf_w (''failed after '' @ itoa (MaxRetries cfg) @ '' retries: '') lastErr)"
proof (induction attempt lastErr w rule: retryLoop_induct [of cfg _ fn])
  case (exhausted attempt lastErr w)
  then show ?case by (simp add: retryLoop_exhausted)
next
  case (success attempt lastErr w r w1)
  with assms [of w] show ?case by simp
next
  case (failure attempt lastErr w e w1)
  with assms [of w] have "e = err" by simp
  with failure show ?case
    by (simp add: retryLoop_failure Errorf_w_def)
qed

lemma retryLoop_same_value:
  assumes "\<And>v. fst (fn v) = Inr x" and "attempt \<le> MaxRetries cfg"
  shows "fst (retryLoop cfg fn attempt lastErr w) = Inr x"
proof -
  obtain w1 where "fn w = (Inr x, w1)" using assms(1) [of w] by (cases "fn w") auto
  with assms(2) show ?thesis by (simp add: retryLoop_success)
qed

lemma gets_append: "wire w' = wire w @ rs \<Longrightarrow> gets w' = gets w + length (filter (\<lambda>r. Method r = ''GET'') rs)"
  by (simp add: gets_def)

lemma authenticate_gets: "gets (snd (authenticate e cfg w)) = gets w"
  using gets_append [OF authenticate_wire [of e cfg w]]
  by (simp add: tokenRequest_def Header_Set_def)

lemma authRequestEditor_gets:
  assumes "authRequestEditor e cfg req w = (Inr req1, w1)"
  shows "gets w1 = gets w \<and> Method req1 = Method req"
proof -
  have "gets (snd (ensureValidToken e cfg w)) = gets w"
    by (simp add: ensureValidToken_def authenticate_gets)
  with assms show ?thesis
    by (auto simp: authRequestEditor_def Header_Set_def split: if_splits prod.splits option.splits)
qed

lemma generated_Do_gets:
  assumes "generated_Do e cfg (NewRequest ''GET'' u) w = (Inr rsp, w1)"
  shows "gets w1 = gets w + 1"
proof -
  obtain r u1 where a: "authRequestEditor e cfg (NewRequest ''GET'' u) w = (r, u1)"
    by (cases "authRequestEditor e cfg (NewRequest ''GET'' u) w")
  show ?thesis
  proof (cases r)
    case (Inl err)
    with a assms show ?thesis by (simp add: generated_Do_def)
  next
    case (Inr req1)
    from authRequestEditor_gets [OF a [unfolded Inr]]
    have g: "gets u1 = gets w" and m: "Method req1 = ''GET''"
      by (simp_all add: NewRequest_def)
    from a Inr assms have "Do e req1 u1 = (Inr rsp, w1)" by (simp add: generated_Do_def)
    then have "wire w1 = wire u1 @ [req1]" using Do_wire [of e req1 u1] by simp
    from gets_append [OF this] g m show ?thesis by simp
  qed
qed

lemma GetProduct_fn_mapping:
  assumes "GetProductWithResponse e cfg productID v = (Inr resp, v1)"
  shows "GetProduct_fn e cfg productID v =
           (if HTTPStatusCode resp = 404 then Inl (NotFoundError ''product'' (itoa productID))
            else if HTTPStatusCode resp \<noteq> 200
            then Inl (ErrorString (''unexpected status '' @ itoa (HTTPStatusCode resp) @ '': ''
                                     @ BodyBytes resp))
            else case JSON200 resp of
                   None \<Rightarrow> Inl (ErrorString ''empty response body'')
                 | Some p \<Rightarrow>
                     Inr \<lparr>ID = gId p, Name = gName p, Description = gDescription p,
                          Deliveries = map toDelivery (gDeliveries p)\<rparr>, v1)"
    and "gets v1 = gets v + 1"
proof -
  show "GetProduct_fn e cfg productID v =
           (if HTTPStatusCode resp = 404 then Inl (NotFoundError ''product'' (itoa productID))
            else if HTTPStatusCode resp \<noteq> 200
            then Inl (ErrorString (''unexpected status '' @ itoa (HTTPStatusCode resp) @ '': ''
                                     @ BodyBytes resp))
            else case JSON200 resp of
                   None \<Rightarrow> Inl (ErrorString ''empty response body'')
                 | Some p \<Rightarrow>
                     Inr \<lparr>ID = gId p, Name = gName p, Description = gDescription p,
                          Deliveries = map toDelivery (gDeliveries p)\<rparr>, v1)"
    using assms by (simp add: GetProduct_fn_def unexpected_status_def split: option.splits)
  from assms obtain rsp where
    "generated_Do e cfg (NewRequest ''GET'' (server cfg @ ''/products/'' @ itoa productID)) v = (Inr rsp, v1)"
    by (auto simp: GetProductWithResponse_def split: prod.splits sum.splits)
  then show "gets v1 = gets v + 1" by (rule generated_Do_gets)
qed

lemma between_attempts_gets: "gets (between_attempts cfg attempt err w) = gets w"
  by (simp add: between_attempts_def gets_def time_Sleep_def Let_def)

lemma retryLoop_failing_gets:
  assumes "\<And>v. \<exists>v1. fn v = (Inl err, v1) \<and> gets v1 = gets v + 1"
  shows "gets (snd (retryLoop cfg fn attempt lastErr w)) = gets w + nat (MaxRetries cfg + 1 - attempt)"
proof (induction attempt lastErr w rule: retryLoop_induct [of cfg _ fn])
  case (exhausted attempt lastErr w)
  then show ?case by (simp add: retryLoop_exhausted)
next
  case (success attempt lastErr w r w1)
  with assms [of w] show ?case by simp
next
  case (failure attempt lastErr w e w1)
  with assms [of w] have "gets w1 = gets w + 1" by simp
  moreover have "nat (MaxRetries cfg + 1 - attempt) = nat (MaxRetries cfg + 1 - (attempt + 1)) + 1"
    using failure(1) by simp
  ultimately show ?case
    using failure by (simp add: retryLoop_failure between_attempts_gets)
qed

text \<open>
  C6 (amended).  Every attempt of a product lookup that receives a response has sent
  one GET request, and maps the response: 404 to a Not-Found error carrying \<open>product\<close> and the stringified id,
  another status than 200 to the generic error carrying status and body, 200 without
  a decoded body to an error, 200 with a body to the product.  When every attempt is
  answered with the same status and body other than a 200 with a body,
  \<^verbatim>\<open>GetProduct\<close> makes \<open>MaxRetries + 1\<close> attempts and returns the error of the attempts
  wrapped as \<open>failed after MaxRetries retries\<close>; answered 200 with a body, it makes one
  attempt and returns the product.  A failed first attempt (a 404 included) followed
  by a successful second one makes \<^verbatim>\<open>GetProduct\<close> succeed.
\<close>

theorem GetProduct_status_mapping:
  assumes "0 \<le> MaxRetries cfg" and "MaxRetries cfg < 2 ^ 63 - 1"
  shows "(\<forall>v resp v1.
            GetProductWithResponse e cfg productID v = (Inr resp, v1) \<longrightarrow>
              GetProduct_fn e cfg productID v =
                (if HTTPStatusCode resp = 404 then Inl (NotFoundError ''product'' (itoa productID))
                 else if HTTPStatusCode resp \<noteq> 200
                 then Inl (ErrorString (''unexpected status '' @ itoa (HTTPStatusCode resp) @ '': ''
                                          @ BodyBytes resp))
                 else case JSON200 resp of
                        None \<Rightarrow> Inl (ErrorString ''empty response body'')
                      | Some p \<Rightarrow>
                          Inr \<lparr>ID = gId p, Name = gName p, Description = gDescription p,
                               Deliveries = map toDelivery (gDeliveries p)\<rparr>, v1)
              \<and> gets v1 = gets v + 1)
       \<and> ((\<forall>v. \<exists>resp v1. GetProductWithResponse e cfg productID v = (Inr resp, v1)
                    \<and> HTTPStatusCode resp = status \<and> BodyBytes resp = b \<and> JSON200 resp = j) \<longrightarrow>
            fst (GetProduct e cfg productID w) =
              (if status = 404
               then Inl (WrapError (''failed after '' @ itoa (MaxRetries cfg) @ '' retries: '')
                           (NotFoundError ''product'' (itoa productID)))
               else if status \<noteq> 200
               then Inl (WrapError (''failed after '' @ itoa (MaxRetries cfg) @ '' retries: '')
                           (ErrorString (''unexpected status '' @ itoa status @ '': '' @ b)))
               else case j of
                      None \<Rightarrow> Inl (WrapError (''failed after '' @ itoa (MaxRetries cfg) @ '' retries: '')
                                     (ErrorString ''empty response body''))
                    | Some p \<Rightarrow>
                        Inr \<lparr>ID = gId p, Name = gName p, Description = gDescription p,
                             Deliveries = map toDelivery (gDeliveries p)\<rparr>)
            \<and> gets (snd (GetProduct e cfg productID w)) =
                gets w + (if status = 200 \<and> j \<noteq> None then 1 else nat (MaxRetries cfg) + 1))
       \<and> (\<forall>err w1 p w2.
            0 < MaxRetries cfg
            \<and> GetProduct_fn e cfg productID w = (Inl err, w1)
            \<and> GetProduct_fn e cfg productID (between_attempts cfg 0 err w1) = (Inr p, w2)
            \<longrightarrow> GetProduct e cfg productID w = (Inr p, w2))"
proof (intro conjI allI impI)
  fix v resp v1
  assume "GetProductWithResponse e cfg productID v = (Inr resp, v1)"
  then show "GetProduct_fn e cfg productID v =
                (if HTTPStatusCode resp = 404 then Inl (NotFoundError ''product'' (itoa productID))
                 else if HTTPStatusCode resp \<noteq> 200
                 then Inl (ErrorString (''unexpected status '' @ itoa (HTTPStatusCode resp) @ '': ''
                                          @ BodyBytes resp))
                 else case JSON200 resp of
                        None \<Rightarrow> Inl (ErrorString ''empty response body'')
                      | Some p \<Rightarrow>
                          Inr \<lparr>ID = gId p, Name = gName p, Description = gDescription p,
                               Deliveries = map toDelivery (gDeliveries p)\<rparr>, v1)"
    and "gets v1 = gets v + 1"
    by (rule GetProduct_fn_mapping)+
next
  assume all: "\<forall>v. \<exists>resp v1. GetProductWithResponse e cfg productID v = (Inr resp, v1)
                    \<and> HTTPStatusCode resp = status \<and> BodyBytes resp = b \<and> JSON200 resp = j"
  define outcome where "outcome =
           (if status = 404 then Inl (NotFoundError ''product'' (itoa productID))
            else if status \<noteq> 200
            then Inl (ErrorString (''unexpected status '' @ itoa status @ '': '' @ b))
            else case j of
                   None \<Rightarrow> Inl (ErrorString ''empty response body'')
                 | Some p \<Rightarrow>
                     Inr \<lparr>ID = gId p, Name = gName p, Description = gDescription p,
                          Deliveries = map toDelivery (gDeliveries p)\<rparr>)"
  have fn: "\<exists>v1. GetProduct_fn e cfg productID v = (outcome, v1) \<and> gets v1 = gets v + 1" for v
  proof -
    from all obtain resp v1 where r: "GetProductWithResponse e cfg productID v = (Inr resp, v1)"
      "HTTPStatusCode resp = status" "BodyBytes resp = b" "JSON200 resp = j"
      by blast
    from GetProduct_fn_mapping [OF r(1)] r(2,3,4) show ?thesis
      by (simp add: outcome_def)
  qed
  have both: "fst (GetProduct e cfg productID w) =
           (case outcome of
              Inl err \<Rightarrow> Inl (WrapError (''failed after '' @ itoa (MaxRetries cfg) @ '' retries: '') err)
            | Inr p \<Rightarrow> Inr p)
         \<and> gets (snd (GetProduct e cfg productID w)) =
             gets w + (case outcome of Inl err \<Rightarrow> nat (MaxRetries cfg) + 1 | Inr p \<Rightarrow> 1)"
  proof (cases outcome)
    case (Inl err)
    have f: "\<And>v. \<exists>v1. GetProduct_fn e cfg productID v = (Inl err, v1) \<and> gets v1 = gets v + 1"
      using fn Inl by simp
    then have "\<And>v. fst (GetProduct_fn e cfg productID v) = Inl err"
      by (metis fst_conv)
    from retryLoop_same_error [OF this, where cfg = cfg and attempt = 0 and lastErr = None and w = w]
      retryLoop_failing_gets [OF f, where cfg = cfg and attempt = 0 and lastErr = None and w = w]
      assms(1)
    show ?thesis
      by (simp add: GetProduct_def retryableRequest_def Inl nat_add_distrib)
  next
    case (Inr p)
    from fn [of w] Inr obtain w1 where
      "GetProduct_fn e cfg productID w = (Inr p, w1)" "gets w1 = gets w + 1"
      by auto
    with assms(1) show ?thesis
      by (simp add: GetProduct_def retryableRequest_def retryLoop_success Inr)
  qed
  from both [THEN conjunct1] show "fst (GetProduct e cfg productID w) =
              (if status = 404
               then Inl (WrapError (''failed after '' @ itoa (MaxRetries cfg) @ '' retries: '')
                           (NotFoundError ''product'' (itoa productID)))
               else if status \<noteq> 200
               then Inl (WrapError (''failed after '' @ itoa (MaxRetries cfg) @ '' retries: '')
                           (ErrorString (''unexpected status '' @ itoa status @ '': '' @ b)))
               else case j of
                      None \<Rightarrow> Inl (WrapError (''failed after '' @ itoa (MaxRetries cfg) @ '' retries: '')
                                     (ErrorString ''empty response body''))
                    | Some p \<Rightarrow>
                        Inr \<lparr>ID = gId p, Name = gName p, Description = gDescription p,
                             Deliveries = map toDelivery (gDeliveries p)\<rparr>)"
    by (simp add: outcome_def split: option.splits)
  from both [THEN conjunct2] show "gets (snd (GetProduct e cfg productID w)) =
                gets w + (if status = 200 \<and> j \<noteq> None then 1 else nat (MaxRetries cfg) + 1)"
    by (auto simp: outcome_def split: option.splits)
next
  fix err w1 p w2
  assume a: "0 < MaxRetries cfg
            \<and> GetProduct_fn e cfg productID w = (Inl err, w1)
            \<and> GetProduct_fn e cfg productID (between_attempts cfg 0 err w1) = (Inr p, w2)"
  then have "retryLoop cfg (GetProduct_fn e cfg productID) 0 None w
               = retryLoop cfg (GetProduct_fn e cfg productID) (0 + 1) (Some err)
                   (between_attempts cfg 0 err w1)"
    by (intro retryLoop_failure) simp_all
  also have "\<dots> = (Inr p, w2)"
    using a by (intro retryLoop_success) simp_all
  finally show "GetProduct e cfg productID w = (Inr p, w2)"
    by (simp add: GetProduct_def retryableRequest_def)
qed

theorem GetProduct_status_mapping_witness:
  "fst (GetProduct_fn (lab (always (replies 0 404 ''gone''))) anonymous 999 (at_noon [] 0))
     = Inl (NotFoundError ''product'' ''999'')
   \<and> fst (GetProduct (lab (always (replies 0 404 ''gone''))) anonymous 999 (at_noon [] 0))
     = Inl (WrapError ''failed after 1 retries: '' (NotFoundError ''product'' ''999''))
   \<and> gets (snd (GetProduct (lab (always (replies 0 404 ''gone''))) anonymous 999 (at_noon [] 0))) = 2
   \<and> \<not> isl (fst (GetProduct (lab (on_script [replies 0 404 ''gone'', replies 0 200 ''product3'']))
                    anonymous 3 (at_noon [] 0)))"
proof -
  let ?e = "lab (always (replies 0 404 ''gone''))"
  let ?e2 = "lab (on_script [replies 0 404 ''gone'', replies 0 200 ''product3''])"
  have m: "0 \<le> MaxRetries anonymous" "MaxRetries anonymous < 2 ^ 63 - 1" "0 < MaxRetries anonymous"
    "MaxRetries anonymous = 1"
    by (simp_all add: anonymous_def subscriber_def)
  have r: "GetProductWithResponse ?e anonymous 999 v
             = (Inr \<lparr>HTTPStatusCode = 404, BodyBytes = ''gone'', JSON200 = None\<rparr>,
                v\<lparr>wire := wire v @ [Header_Set ''User-Agent'' (UserAgent anonymous)
                    (NewRequest ''GET'' (server anonymous @ ''/products/'' @ itoa 999))]\<rparr>)" for v
    by (simp add: GetProductWithResponse_def generated_Do_def authRequestEditor_def Do_def
          lab_def always_def replies_def parse_table_def anonymous_def)
  have all: "\<forall>v. \<exists>resp v1.
          GetProductWithResponse ?e anonymous 999 v = (Inr resp, v1)
          \<and> HTTPStatusCode resp = 404 \<and> BodyBytes resp = ''gone'' \<and> JSON200 resp = None"
    unfolding r by simp
  note inst = GetProduct_status_mapping [OF m(1,2), where e = ?e and productID = 999
      and status = 404 and b = "''gone''" and j = None and w = "at_noon [] 0"]
  from inst [THEN conjunct1, rule_format, OF r [of "at_noon [] 0"]]
  have 1: "fst (GetProduct_fn ?e anonymous 999 (at_noon [] 0)) = Inl (NotFoundError ''product'' ''999'')"
    by (simp add: itoa_def digits.simps)
  from inst [THEN conjunct2, THEN conjunct1, THEN mp, OF all]
  have 2: "fst (GetProduct ?e anonymous 999 (at_noon [] 0))
     = Inl (WrapError ''failed after 1 retries: '' (NotFoundError ''product'' ''999''))
   \<and> gets (snd (GetProduct ?e anonymous 999 (at_noon [] 0))) = 2"
    by (simp add: itoa_def digits.simps m(4) gets_def at_noon_def)
  have f1: "fst (GetProduct_fn ?e2 anonymous 3 (at_noon [] 0)) = Inl (NotFoundError ''product'' ''3'')"
    by (simp add: GetProduct_fn_def GetProductWithResponse_def run_defs)
  define w1 where "w1 = snd (GetProduct_fn ?e2 anonymous 3 (at_noon [] 0))"
  have a1: "GetProduct_fn ?e2 anonymous 3 (at_noon [] 0) = (Inl (NotFoundError ''product'' ''3''), w1)"
    using f1 by (simp add: w1_def prod_eq_iff)
  have "\<not> isl (fst (GetProduct_fn ?e2 anonymous 3
                  (between_attempts anonymous 0 (NotFoundError ''product'' ''3'') w1)))"
    unfolding w1_def
    by (simp add: GetProduct_fn_def GetProductWithResponse_def between_attempts_def run_defs
          product3_def)
  then obtain p w2 where a2: "GetProduct_fn ?e2 anonymous 3
                  (between_attempts anonymous 0 (NotFoundError ''product'' ''3'') w1) = (Inr p, w2)"
    by (cases "GetProduct_fn ?e2 anonymous 3
                  (between_attempts anonymous 0 (NotFoundError ''product'' ''3'') w1)";
        cases "fst (GetProduct_fn ?e2 anonymous 3
                  (between_attempts anonymous 0 (NotFoundError ''product'' ''3'') w1))")
       auto
  from GetProduct_status_mapping [OF m(1,2), where e = ?e2 and productID = 3 and w = "at_noon [] 0",
      THEN conjunct2, THEN conjunct2, rule_format, of "NotFoundError ''product'' ''3''" w1 p w2]
    m(3) a1 a2
  have 3: "\<not> isl (fst (GetProduct ?e2 anonymous 3 (at_noon [] 0)))" by simp
  from 1 2 3 show ?thesis by simp
qed

text \<open>
  Run on a server that answers 404 twice, \<^verbatim>\<open>GetProduct\<close> does not return the
  Not-Found error itself but the retry loop's wrapping of it; and a 404 followed by a
  200 ends in success.
\<close>

theorem GetProduct_not_found_wrapped:
  "fst (GetProduct (lab (on_script [replies 0 404 ''gone'', replies 0 404 ''gone''])) anonymous 999 (at_noon [] 0))
     = Inl (WrapError ''failed after 1 retries: '' (NotFoundError ''product'' ''999''))
   \<and> fst (GetProduct (lab (on_script [replies 0 404 ''gone'', replies 0 404 ''gone''])) anonymous 999 (at_noon [] 0))
     \<noteq> Inl (NotFoundError ''product'' ''999'')
   \<and> \<not> isl (fst (GetProduct (lab (on_script [replies 0 404 ''gone'', replies 0 200 ''product3''])) anonymous 3
                    (at_noon [] 0)))"
  by (simp add: GetProduct_def GetProduct_fn_def GetProductWithResponse_def run_defs product3_def)

subsection \<open>Requests without credentials\<close>

lemma Header_Get_Set:
  "Header_Get (Header_Set k v req) k' = (if k' = k then Some v else Header_Get req k')"
  by (simp add: Header_Get_def Header_Set_def update_conv')

lemma anonymous_generated_Do:
  assumes "Username cfg = [] \<or> Password cfg = []"
  shows "generated_Do e cfg req w = Do e (Header_Set ''User-Agent'' (UserAgent cfg) req) w"
  using assms by (auto simp: generated_Do_def authRequestEditor_def)

lemma undecorated_refl: "undecorated cfg w w"
  by (simp add: undecorated_def)

lemma undecorated_trans: "undecorated cfg a b \<Longrightarrow> undecorated cfg b c \<Longrightarrow> undecorated cfg a c"
  unfolding undecorated_def by (elim exE conjE, rule_tac x = "new @ newa" in exI) auto

lemma undecorated_same_wire: "wire w' = wire w \<Longrightarrow> undecorated cfg w w'"
  by (simp add: undecorated_def)

lemma undecorated_generated_Do:
  assumes "Username cfg = [] \<or> Password cfg = []"
  shows "undecorated cfg w (snd (generated_Do e cfg (NewRequest ''GET'' u) w))"
proof -
  let ?r = "Header_Set ''User-Agent'' (UserAgent cfg) (NewRequest ''GET'' u)"
  have "wire (snd (generated_Do e cfg (NewRequest ''GET'' u) w)) = wire w @ [?r]"
    by (simp add: anonymous_generated_Do [OF assms] Do_wire)
  moreover have "Header_Get ?r ''Authorization'' = None"
    "Header_Get ?r ''User-Agent'' = Some (UserAgent cfg)"
    by (simp_all add: Header_Get_Set) (simp add: Header_Get_def NewRequest_def)
  moreover have "?r \<noteq> tokenRequest cfg"
  proof
    assume "?r = tokenRequest cfg"
    then have "Method ?r = Method (tokenRequest cfg)" by simp
    then show False by (simp add: tokenRequest_def Header_Set_def NewRequest_def)
  qed
  ultimately show ?thesis unfolding undecorated_def by auto
qed

lemma undecorated_retry:
  assumes "\<And>v. undecorated cfg v (snd (fn v))"
  shows "undecorated cfg w (snd (retryableRequest cfg fn w))"
  unfolding retryableRequest_def
  by (rule retryLoop_rel [where R = "undecorated cfg"])
     (auto intro: assms undecorated_refl undecorated_trans undecorated_same_wire
           simp: time_Sleep_def)

lemma io_Copy_step:
  assumes "Read src w = ((p, er), src1, w1)"
      and "(if 0 < length p then copy_Write dst p w1 else (None, w1)) = (ew, w2)"
  shows "io_Copy dst src w =
           (case ew of
              Some e \<Rightarrow> (Some e, w2)
            | None \<Rightarrow>
                (case er of
                   None \<Rightarrow> io_Copy dst src1 w2
                 | Some EOF \<Rightarrow> (None, w2)
                 | Some (Failed m) \<Rightarrow> (Some (ErrorString m), w2)))"
  using assms by (subst io_Copy.simps) (simp split: option.splits)

lemma Read_unread:
  assumes "Read src w = ((p, None), src1, w1)"
  shows "unread src1 < unread src"
proof (cases src)
  case (BodyReader b)
  with assms show ?thesis by (cases b) (auto split: prod.splits)
next
  case (ProgressReader pr)
  with assms show ?thesis
    by (cases "reader pr") (auto simp: progressReader_Read_def Let_def split: prod.splits)
qed

lemma Read_callback:
  assumes "Read src w = (r, src1, w1)"
  shows "callback src1 = callback src"
  using assms
  by (cases src) (auto simp: progressReader_Read_def Let_def split: prod.splits)

lemma Read_rel:
  assumes "\<And>v. R v v" and "\<And>f a b v. callback src = Some f \<Longrightarrow> R v (f a b v)"
      and "Read src w = (r, src1, w1)"
  shows "R w w1"
  using assms
  by (cases src) (auto simp: progressReader_Read_def Let_def split: prod.splits option.splits)

lemma copy_Write_rel:
  assumes "\<And>p v. R v (snd (dst p v))"
  shows "R w (snd (copy_Write dst p w))"
  using assms [of w p] by (auto simp: copy_Write_def split: prod.splits)

lemma io_Copy_rel:
  assumes refl: "\<And>v. R v v"
      and trans: "\<And>a b c. R a b \<Longrightarrow> R b c \<Longrightarrow> R a c"
      and dst: "\<And>p v. R v (snd (dst p v))"
      and cb: "\<And>f a b v. callback src = Some f \<Longrightarrow> R v (f a b v)"
  shows "R w (snd (io_Copy dst src w))"
proof -
  have "\<forall>src w. n = unread src \<longrightarrow> (\<forall>f a b v. callback src = Some f \<longrightarrow> R v (f a b v))
          \<longrightarrow> R w (snd (io_Copy dst src w))" for n
  proof (induction n rule: less_induct)
    case (less n)
    show ?case
    proof (intro allI impI)
      fix src w
      assume n: "n = unread src"
         and c: "\<forall>f a b v. callback src = Some f \<longrightarrow> R v (f a b v)"
      obtain p er src1 w1 where r: "Read src w = ((p, er), src1, w1)"
        by (cases "Read src w") auto
      obtain ew w2 where wr: "(if 0 < length p then copy_Write dst p w1 else (None, w1)) = (ew, w2)"
        by (cases "if 0 < length p then copy_Write dst p w1 else (None, w1)") auto
      have 1: "R w w1" using c by (intro Read_rel [OF refl _ r]) auto
      have 2: "R w1 w2"
        using wr copy_Write_rel [of R dst w1 p, OF dst] refl [of w1]
        by (auto split: if_splits)
      have 12: "R w w2" by (rule trans [OF 1 2])
      show "R w (snd (io_Copy dst src w))"
      proof (cases "ew = None \<and> er = None")
        case True
        then have er: "er = None" and ew: "ew = None" by simp_all
        have "unread src1 < n" using Read_unread r er n by auto
        moreover have "\<forall>f a b v. callback src1 = Some f \<longrightarrow> R v (f a b v)"
          using c Read_callback [OF r] by simp
        ultimately have "R w2 (snd (io_Copy dst src1 w2))"
          using less.IH by blast
        with 12 have "R w (snd (io_Copy dst src1 w2))" by (rule trans)
        then show ?thesis by (simp add: io_Copy_step [OF r wr] er ew)
      next
        case False
        with 12 show ?thesis
          by (auto simp: io_Copy_step [OF r wr] split: option.splits read_error.splits)
      qed
    qed
  qed
  with cb show ?thesis by blast
qed

lemma undecorated_ListProducts_fn:
  assumes "Username cfg = [] \<or> Password cfg = []"
  shows "undecorated cfg w (snd (ListProducts_fn e cfg w))"
  using undecorated_generated_Do [OF assms, of w e "server cfg @ ''/products/''"]
  by (auto simp: ListProducts_fn_def ListProductsWithResponse_def
           split: prod.splits sum.splits option.splits)

lemma undecorated_GetProduct_fn:
  assumes "Username cfg = [] \<or> Password cfg = []"
  shows "undecorated cfg w (snd (GetProduct_fn e cfg productID w))"
  using undecorated_generated_Do [OF assms, of w e "server cfg @ ''/products/'' @ itoa productID"]
  by (auto simp: GetProduct_fn_def GetProductWithResponse_def
           split: prod.splits sum.splits option.splits)

lemma undecorated_Download_fn:
  assumes "Username cfg = [] \<or> Password cfg = []"
      and dst: "\<And>p v. wire (snd (dst p v)) = wire v"
      and cb: "\<And>f a b v. progress = Some f \<Longrightarrow> wire (f a b v) = wire v"
  shows "undecorated cfg w
           (snd (DownloadFileWithProgress_fn e cfg productID deliveryID fileID dst progress w))"
proof -
  let ?u = "server cfg @ ''/products/'' @ itoa productID @ ''/delivery/''
          @ itoa deliveryID @ ''/file/'' @ itoa fileID @ ''/download''"
  obtain r w1 where g: "generated_DownloadFile e cfg productID deliveryID fileID w = (r, w1)"
    by (cases "generated_DownloadFile e cfg productID deliveryID fileID w")
  have 1: "undecorated cfg w w1"
    using undecorated_generated_Do [OF assms(1), of w e ?u] g
    by (simp add: generated_DownloadFile_def)
  have copy: "undecorated cfg w1 (snd (io_Copy dst src w1))"
    if "\<And>f. callback src = Some f \<Longrightarrow> progress = Some f" for src
  proof (rule io_Copy_rel [where R = "undecorated cfg"])
    show "undecorated cfg v v" for v by (rule undecorated_refl)
    show "undecorated cfg a b \<Longrightarrow> undecorated cfg b c \<Longrightarrow> undecorated cfg a c" for a b c
      by (rule undecorated_trans)
    show "undecorated cfg v (snd (dst p v))" for p v
      by (rule undecorated_same_wire) (rule dst)
    show "callback src = Some f \<Longrightarrow> undecorated cfg v (f a b v)" for f a b v
      by (rule undecorated_same_wire) (rule cb, rule that)
  qed
  show ?thesis
  proof (cases r)
    case (Inl err)
    with g 1 show ?thesis by (simp add: DownloadFileWithProgress_fn_def)
  next
    case (Inr resp)
    show ?thesis
    proof (cases "StatusCode resp = 200")
      case False
      with g 1 Inr show ?thesis by (simp add: DownloadFileWithProgress_fn_def)
    next
      case True
      define src where "src = (case progress of
                             None \<Rightarrow> BodyReader (Body resp)
                           | Some f \<Rightarrow>
                               ProgressReader \<lparr>reader = Body resp, total = ContentLength resp,
                                               current = 0, progressFn = Some f\<rparr>)"
      have "\<And>f. callback src = Some f \<Longrightarrow> progress = Some f"
        by (auto simp: src_def split: option.splits)
      from copy [OF this] 1 have "undecorated cfg w (snd (io_Copy dst src w1))"
        by (rule undecorated_trans [rotated])
      with g Inr True show ?thesis
        by (auto simp add: DownloadFileWithProgress_fn_def src_def [symmetric] Let_def
                 split: prod.splits option.splits)
    qed
  qed
qed

text \<open>
  C4.  For every configuration without credentials (the code asks for an empty
  username or an empty password), \<^verbatim>\<open>ensureValidToken\<close> is a no-op returning success,
  the request editor adds no \<^verbatim>\<open>Authorization\<close> header and sets the configured
  \<^verbatim>\<open>User-Agent\<close>, and every request that \<^verbatim>\<open>ListProducts\<close>, \<^verbatim>\<open>GetProduct\<close> and the
  downloads put on the wire has no \<^verbatim>\<open>Authorization\<close> header, carries that
  \<^verbatim>\<open>User-Agent\<close> and is not a token request (the writer and the progress callback
  being code of the caller that sends nothing itself).
\<close>

theorem no_credentials_no_authentication:
  assumes "Username cfg = [] \<or> Password cfg = []"
      and "\<forall>p v. wire (snd (dst p v)) = wire v"
      and "\<forall>f a b v. progress = Some f \<longrightarrow> wire (f a b v) = wire v"
  shows "ensureValidToken e cfg w = (None, w)
       \<and> authRequestEditor e cfg req w = (Inr (Header_Set ''User-Agent'' (UserAgent cfg) req), w)
       \<and> Header_Get (Header_Set ''User-Agent'' (UserAgent cfg) req) ''Authorization''
           = Header_Get req ''Authorization''
       \<and> Header_Get (Header_Set ''User-Agent'' (UserAgent cfg) req) ''User-Agent''
           = Some (UserAgent cfg)
       \<and> undecorated cfg w (snd (ListProducts e cfg w))
       \<and> undecorated cfg w (snd (GetProduct e cfg productID w))
       \<and> undecorated cfg w
           (snd (DownloadFileWithProgress e cfg productID deliveryID fileID dst progress w))"
proof -
  have "ensureValidToken e cfg w = (None, w)"
    using assms(1) by (auto simp: ensureValidToken_def)
  moreover have "authRequestEditor e cfg req w = (Inr (Header_Set ''User-Agent'' (UserAgent cfg) req), w)"
    using assms(1) by (auto simp: authRequestEditor_def)
  moreover have "undecorated cfg w (snd (ListProducts e cfg w))"
    unfolding ListProducts_def
    by (rule undecorated_retry) (rule undecorated_ListProducts_fn [OF assms(1)])
  moreover have "undecorated cfg w (snd (GetProduct e cfg productID w))"
    unfolding GetProduct_def
    by (rule undecorated_retry) (rule undecorated_GetProduct_fn [OF assms(1)])
  moreover have "undecorated cfg w
           (snd (DownloadFileWithProgress e cfg productID deliveryID fileID dst progress w))"
    unfolding DownloadFileWithProgress_def
    using assms(2,3)
    by (intro undecorated_retry undecorated_Download_fn [OF assms(1)]) auto
  ultimately show ?thesis by (simp add: Header_Get_Set)
qed

theorem no_credentials_no_authentication_witness:
  "ensureValidToken (lab (always (replies 0 200 ''catalogue''))) anonymous (at_noon [] 0) = (None, at_noon [] 0)
   \<and> undecorated anonymous (at_noon [] 0)
        (snd (ListProducts (lab (always (replies 0 200 ''catalogue''))) anonymous (at_noon [] 0)))
   \<and> undecorated anonymous (at_noon [] 0)
        (snd (DownloadFileWithProgress (lab (always (replies 0 200 ''catalogue''))) anonymous 3 12345 67890
                buffer (Some record_progress) (at_noon [] 0)))
   \<and> wire (snd (ListProducts (lab (always (replies 0 200 ''catalogue''))) anonymous (at_noon [] 0)))
       = [\<lparr>Method = ''GET'',
           URL = ''https://publication-bdds.apps.epo.org/bdds/bdds-bff-service/prod/api/products/'',
           Header = [(''User-Agent'', ''PatentDev/BDDS/1.0'')], Form = []\<rparr>]"
proof -
  have a: "Username anonymous = [] \<or> Password anonymous = []" by (simp add: anonymous_def)
  have b: "\<forall>p v. wire (snd (buffer p v)) = wire v" by (simp add: buffer_def)
  have c: "\<forall>f a b v. Some record_progress = Some f \<longrightarrow> wire (f a b v) = wire v"
    by (simp add: record_progress_def)
  from no_credentials_no_authentication [OF a b c,
      where e = "lab (always (replies 0 200 ''catalogue''))" and w = "at_noon [] 0"
        and productID = 3 and deliveryID = 12345 and fileID = 67890]
  have "ensureValidToken (lab (always (replies 0 200 ''catalogue''))) anonymous (at_noon [] 0) = (None, at_noon [] 0)
   \<and> undecorated anonymous (at_noon [] 0)
        (snd (ListProducts (lab (always (replies 0 200 ''catalogue''))) anonymous (at_noon [] 0)))
   \<and> undecorated anonymous (at_noon [] 0)
        (snd (DownloadFileWithProgress (lab (always (replies 0 200 ''catalogue''))) anonymous 3 12345 67890
                buffer (Some record_progress) (at_noon [] 0)))"
    by simp
  moreover have "wire (snd (ListProducts (lab (always (replies 0 200 ''catalogue''))) anonymous (at_noon [] 0)))
       = [\<lparr>Method = ''GET'',
           URL = ''https://publication-bdds.apps.epo.org/bdds/bdds-bff-service/prod/api/products/'',
           Header = [(''User-Agent'', ''PatentDev/BDDS/1.0'')], Form = []\<rparr>]"
    by (simp add: ListProducts_def ListProducts_fn_def ListProductsWithResponse_def run_defs
          always_def catalogue_def)
  ultimately show ?thesis by simp
qed

subsection \<open>Resource requests answered 401\<close>

text \<open>
  C1.  According to the spec, a 401 answer to a resource request gives an
  Authentication error and, retries remaining, a cleared token and a fresh
  authentication (the loop's comment: \<^verbatim>\<open>Check if it's a 401 - try re-authenticating\<close>).
  Run on such answers, \<^verbatim>\<open>GetProduct\<close> returns the generic \<open>unexpected status 401\<close> error
  (wrapped by the retry loop), keeps the token, and sends the second attempt with the
  same bearer token and no token request in between.
\<close>

theorem GetProduct_unauthorized:
  "fst (GetProduct (lab (always (replies 0 401 ''unauthorized''))) subscriber 3
          (at_noon ''tok'' 86400000000000))
     = Inl (WrapError ''failed after 1 retries: '' (ErrorString ''unexpected status 401: unauthorized''))
   \<and> token (snd (GetProduct (lab (always (replies 0 401 ''unauthorized''))) subscriber 3
          (at_noon ''tok'' 86400000000000))) = ''tok''
   \<and> map (\<lambda>r. (Method r, URL r, Header_Get r ''Authorization''))
         (wire (snd (GetProduct (lab (always (replies 0 401 ''unauthorized''))) subscriber 3
          (at_noon ''tok'' 86400000000000))))
     = [(''GET'', ''https://publication-bdds.apps.epo.org/bdds/bdds-bff-service/prod/api/products/3'', Some ''Bearer tok''),
        (''GET'', ''https://publication-bdds.apps.epo.org/bdds/bdds-bff-service/prod/api/products/3'', Some ''Bearer tok'')]"
  by (simp add: GetProduct_def GetProduct_fn_def GetProductWithResponse_def run_defs always_def)

subsection \<open>Latest delivery\<close>

lemma latest_scan:
  fixes ts :: "'a \<Rightarrow> int"
  defines "pick \<equiv> (\<lambda>latest d. if ts latest < ts d then d else latest)"
  shows "\<exists>i < length (d # rest).
           foldl pick d rest = (d # rest) ! i
           \<and> (\<forall>j < length (d # rest). ts ((d # rest) ! j) \<le> ts ((d # rest) ! i))
           \<and> (\<forall>j < i. ts ((d # rest) ! j) < ts ((d # rest) ! i))"
proof (induction rest rule: rev_induct)
  case Nil
  show ?case by simp
next
  case (snoc x xs)
  then obtain i where i: "i < length (d # xs)"
    and cur: "foldl pick d xs = (d # xs) ! i"
    and mx: "\<forall>j < length (d # xs). ts ((d # xs) ! j) \<le> ts ((d # xs) ! i)"
    and first: "\<forall>j < i. ts ((d # xs) ! j) < ts ((d # xs) ! i)"
    by blast
  let ?ds = "d # xs"
  have app: "d # xs @ [x] = ?ds @ [x]" by simp
  have old: "(?ds @ [x]) ! j = ?ds ! j" if "j < length ?ds" for j
    using that by (simp only: nth_append if_True)
  have new: "(?ds @ [x]) ! length ?ds = x" by (simp only: nth_append_length)
  show ?case
  proof (cases "ts (?ds ! i) < ts x")
    case True
    have "foldl pick d (xs @ [x]) = (?ds @ [x]) ! length ?ds"
      using True cur by (simp add: pick_def del: nth_Cons_Suc)
    moreover have "\<forall>j < length (?ds @ [x]). ts ((?ds @ [x]) ! j) \<le> ts ((?ds @ [x]) ! length ?ds)"
    proof (intro allI impI)
      fix j assume "j < length (?ds @ [x])"
      then consider "j < length ?ds" | "j = length ?ds" by fastforce
      then show "ts ((?ds @ [x]) ! j) \<le> ts ((?ds @ [x]) ! length ?ds)"
      proof cases
        case 1
        with mx True show ?thesis unfolding new old [OF 1] by fastforce
      next
        case 2
        then show ?thesis by simp
      qed
    qed
    moreover have "\<forall>j < length ?ds. ts ((?ds @ [x]) ! j) < ts ((?ds @ [x]) ! length ?ds)"
    proof (intro allI impI)
      fix j assume j: "j < length ?ds"
      with mx True show "ts ((?ds @ [x]) ! j) < ts ((?ds @ [x]) ! length ?ds)"
        unfolding new old [OF j] by fastforce
    qed
    ultimately show ?thesis
      unfolding app by (intro exI [of _ "length ?ds"]) simp
  next
    case False
    have "foldl pick d (xs @ [x]) = (?ds @ [x]) ! i"
      using False cur old [OF i] by (simp add: pick_def del: nth_Cons_Suc)
    moreover have "\<forall>j < length (?ds @ [x]). ts ((?ds @ [x]) ! j) \<le> ts ((?ds @ [x]) ! i)"
    proof (intro allI impI)
      fix j assume "j < length (?ds @ [x])"
      then consider "j < length ?ds" | "j = length ?ds" by fastforce
      then show "ts ((?ds @ [x]) ! j) \<le> ts ((?ds @ [x]) ! i)"
      proof cases
        case 1
        with mx show ?thesis unfolding old [OF 1] old [OF i] by fastforce
      next
        case 2
        with False show ?thesis unfolding 2 new old [OF i] by simp
      qed
    qed
    moreover have "\<forall>j < i. ts ((?ds @ [x]) ! j) < ts ((?ds @ [x]) ! i)"
    proof (intro allI impI)
      fix j assume j: "j < i"
      with i have jl: "j < length ?ds" by simp
      from first j show "ts ((?ds @ [x]) ! j) < ts ((?ds @ [x]) ! i)"
        unfolding old [OF jl] old [OF i] by fastforce
    qed
    ultimately show ?thesis
      unfolding app using i by (intro exI [of _ i]) simp
  qed
qed

text \<open>
  C7.  For every product that \<^verbatim>\<open>GetProduct\<close> fetched with a non-empty delivery list,
  \<^verbatim>\<open>GetLatestDelivery\<close> returns a delivery of the list whose publication timestamp is
  maximal, and of those with that timestamp the first in the list's order; for a
  product with no deliveries it returns a Not-Found error.
\<close>

theorem GetLatestDelivery_latest:
  assumes "GetProduct e cfg productID w = (Inr product, w1)"
  shows "if Deliveries product = []
         then GetLatestDelivery e cfg productID w =
                (Inl (NotFoundError ''delivery'' (''product '' @ itoa productID @ '' has no deliveries'')), w1)
         else \<exists>i < length (Deliveries product).
                GetLatestDelivery e cfg productID w = (Inr (Deliveries product ! i), w1)
                \<and> (\<forall>j < length (Deliveries product).
                      DeliveryPublicationDatetime (Deliveries product ! j)
                        \<le> DeliveryPublicationDatetime (Deliveries product ! i))
                \<and> (\<forall>j < i. DeliveryPublicationDatetime (Deliveries product ! j)
                              < DeliveryPublicationDatetime (Deliveries product ! i))"
proof (cases "Deliveries product")
  case Nil
  with assms show ?thesis by (simp add: GetLatestDelivery_def)
next
  case (Cons d0 rest)
  from latest_scan [where ts = DeliveryPublicationDatetime and d = d0 and rest = rest]
  show ?thesis using assms Cons by (simp add: GetLatestDelivery_def)
qed

theorem GetLatestDelivery_latest_witness:
  "DeliveryID (projr (fst (GetLatestDelivery (lab (always (replies 0 200 ''product3''))) anonymous 3 (at_noon [] 0))))
     = 12345
   \<and> fst (GetLatestDelivery (lab (always (replies 0 200 ''bare''))) anonymous 3 (at_noon [] 0))
     = Inl (NotFoundError ''delivery'' ''product 3 has no deliveries'')"
proof -
  let ?e = "lab (always (replies 0 200 ''product3''))" and ?e' = "lab (always (replies 0 200 ''bare''))"
  let ?ds = "[\<lparr>DeliveryID = 12340, DeliveryName = ''2024-10-14'',
          DeliveryPublicationDatetime = 20241014, DeliveryExpiryDatetime = None, Files = []\<rparr>,
         \<lparr>DeliveryID = 12345, DeliveryName = ''2024-10-15'',
          DeliveryPublicationDatetime = 20241015, DeliveryExpiryDatetime = Some 20241115, Files = []\<rparr>,
         \<lparr>DeliveryID = 12346, DeliveryName = ''2024-10-15 bis'',
          DeliveryPublicationDatetime = 20241015, DeliveryExpiryDatetime = None, Files = []\<rparr>]"
  let ?p = "\<lparr>ID = 3, Name = ''EP DocDB front file'', Description = ''bibliographic data'', Deliveries = ?ds\<rparr>"
  have "fst (GetProduct ?e anonymous 3 (at_noon [] 0)) = Inr ?p"
    by (simp add: GetProduct_def GetProduct_fn_def GetProductWithResponse_def run_defs
          product3_def toDelivery_def)
  then have gp: "GetProduct ?e anonymous 3 (at_noon [] 0) = (Inr ?p, snd (GetProduct ?e anonymous 3 (at_noon [] 0)))"
    by (simp add: prod_eq_iff)
  have "fst (GetProduct ?e' anonymous 3 (at_noon [] 0)) = Inr (?p\<lparr>Deliveries := []\<rparr>)"
    by (simp add: GetProduct_def GetProduct_fn_def GetProductWithResponse_def run_defs
          product3_def toDelivery_def)
  then have gp': "GetProduct ?e' anonymous 3 (at_noon [] 0)
      = (Inr (?p\<lparr>Deliveries := []\<rparr>), snd (GetProduct ?e' anonymous 3 (at_noon [] 0)))"
    by (simp add: prod_eq_iff)
  from GetLatestDelivery_latest [OF gp]
  have 1: "DeliveryID (projr (fst (GetLatestDelivery ?e anonymous 3 (at_noon [] 0)))) = 12345"
    by (auto simp: numeral_3_eq_3 less_Suc_eq)
  from GetLatestDelivery_latest [OF gp']
  have 2: "fst (GetLatestDelivery ?e' anonymous 3 (at_noon [] 0))
     = Inl (NotFoundError ''delivery'' ''product 3 has no deliveries'')"
    by (simp add: itoa_def digits.simps)
  from 1 2 show ?thesis by simp
qed

subsection \<open>Lookup by name\<close>




lemma DecodeRuneInString_size:
  "s \<noteq> [] \<Longrightarrow> 0 < snd (DecodeRuneInString s)"
  by (cases s) (simp_all add: Let_def)

lemma runes_Nil [simp]: "runes [] = []"
  by (simp add: runes.simps)

lemma runes_step:
  "s \<noteq> [] \<Longrightarrow>
   runes s = fst (DecodeRuneInString s) # runes (drop (snd (DecodeRuneInString s)) s)"
  by (subst runes.simps) (simp split: prod.splits)

lemma runes_eq_Nil [simp]: "runes s = [] \<longleftrightarrow> s = []"
  using runes_step [of s] by (cases "s = []") simp_all







lemma EqualFold_examples:
  "EqualFold orbit ''EP DocDB front file'' ''ep docdb front file''"
  "\<not> EqualFold orbit ''EP DocDB front file'' ''EP DocDB''"
  by (simp_all add: Let_def)



subsection \<open>Progress\<close>

lemma copy_Write_seen:
  assumes "\<And>p v. seen (snd (dst p v)) = seen v"
  shows "seen (snd (copy_Write dst p w)) = seen w"
  using assms [of p w] by (auto simp: copy_Write_def split: prod.splits)

lemma io_Copy_progress:
  assumes dst: "\<And>p v. seen (snd (dst p v)) = seen v"
  shows "\<forall>w. \<exists>cs.
           seen (snd (io_Copy dst (ProgressReader \<lparr>reader = b, total = T, current = c,
                                                   progressFn = Some record_progress\<rparr>) w))
             = seen w @ map (\<lambda>x. (x, T)) cs
           \<and> cs \<noteq> [] \<and> sorted (c # cs)
           \<and> (fst (io_Copy dst (ProgressReader \<lparr>reader = b, total = T, current = c,
                                                   progressFn = Some record_progress\<rparr>) w) = None
                \<longrightarrow> last cs = c + int (length (fst (ReadAll b))))"
proof (induction b arbitrary: c)
  case Nil
  show ?case
  proof
    fix w :: world
    let ?src = "ProgressReader \<lparr>reader = [], total = T, current = c, progressFn = Some record_progress\<rparr>"
    have "io_Copy dst ?src w = (None, w\<lparr>seen := seen w @ [(c, T)]\<rparr>)"
      by (subst io_Copy.simps) (simp add: progressReader_Read_def record_progress_def)
    then show "\<exists>cs. seen (snd (io_Copy dst ?src w)) = seen w @ map (\<lambda>x. (x, T)) cs
           \<and> cs \<noteq> [] \<and> sorted (c # cs)
           \<and> (fst (io_Copy dst ?src w) = None \<longrightarrow> last cs = c + int (length (fst (ReadAll []))))"
      by (intro exI [of _ "[c]"]) simp
  qed
next
  case (Cons r rest)
  obtain p er where r: "r = (p, er)" by (cases r)
  define c' where "c' = c + int (length p)"
  show ?case
  proof
    fix w :: world
    let ?src = "ProgressReader \<lparr>reader = r # rest, total = T, current = c, progressFn = Some record_progress\<rparr>"
    let ?src1 = "ProgressReader \<lparr>reader = rest, total = T, current = c', progressFn = Some record_progress\<rparr>"
    define w1 where "w1 = w\<lparr>seen := seen w @ [(c', T)]\<rparr>"
    have rd: "Read ?src w = ((p, er), ?src1, w1)"
      by (simp add: progressReader_Read_def record_progress_def r c'_def w1_def)
    obtain ew w2 where wr: "(if 0 < length p then copy_Write dst p w1 else (None, w1)) = (ew, w2)"
      by (cases "if 0 < length p then copy_Write dst p w1 else (None, w1)") auto
    have s2: "seen w2 = seen w @ [(c', T)]"
      using wr copy_Write_seen [of dst p w1, OF dst] by (auto simp: w1_def split: if_splits)
    note step = io_Copy_step [OF rd wr]
    have le: "c \<le> c'" by (simp add: c'_def)
    show "\<exists>cs. seen (snd (io_Copy dst ?src w)) = seen w @ map (\<lambda>x. (x, T)) cs
           \<and> cs \<noteq> [] \<and> sorted (c # cs)
           \<and> (fst (io_Copy dst ?src w) = None \<longrightarrow> last cs = c + int (length (fst (ReadAll (r # rest)))))"
    proof (cases "ew = None \<and> er = None")
      case True
      then have io: "io_Copy dst ?src w = io_Copy dst ?src1 w2" by (simp add: step)
      from Cons.IH [of c', THEN spec [where x = w2]] obtain cs where
        all: "seen (snd (io_Copy dst ?src1 w2)) = seen w2 @ map (\<lambda>x. (x, T)) cs
          \<and> cs \<noteq> [] \<and> sorted (c' # cs)
          \<and> (fst (io_Copy dst ?src1 w2) = None \<longrightarrow> last cs = c' + int (length (fst (ReadAll rest))))"
        ..
      note cs = all [THEN conjunct1] all [THEN conjunct2, THEN conjunct1]
        all [THEN conjunct2, THEN conjunct2, THEN conjunct1]
        all [THEN conjunct2, THEN conjunct2, THEN conjunct2]
      have ra: "int (length (fst (ReadAll (r # rest)))) = int (length p) + int (length (fst (ReadAll rest)))"
        using True by (simp add: r split: prod.splits)
      show ?thesis
        unfolding io
        using cs le s2 ra
        by (intro exI [of _ "c' # cs"]) (auto simp: c'_def)
    next
      case False
      then consider (werr) x where "ew = Some x"
        | (eof) "ew = None" "er = Some EOF"
        | (fail) m where "ew = None" "er = Some (Failed m)"
        by (cases ew; cases er) (auto, metis read_error.exhaust)
      then show ?thesis
      proof cases
        case werr
        then have "io_Copy dst ?src w = (Some x, w2)" by (simp add: step)
        with s2 le show ?thesis by (intro exI [of _ "[c']"]) simp
      next
        case eof
        then have "io_Copy dst ?src w = (None, w2)" by (simp add: step)
        with s2 le eof show ?thesis
          by (intro exI [of _ "[c']"]) (simp add: r c'_def)
      next
        case fail
        then have "io_Copy dst ?src w = (Some (ErrorString m), w2)" by (simp add: step)
        with s2 le show ?thesis by (intro exI [of _ "[c']"]) simp
      qed
    qed
  qed
qed

lemma Do_seen: "seen (snd (Do e req w)) = seen w"
  by (simp add: Do_def split: prod.splits)

lemma authenticate_seen: "seen (snd (authenticate e cfg w)) = seen w"
  using Do_seen [of e "tokenRequest cfg" w]
  by (auto simp: authenticate_def split: prod.splits sum.splits)

lemma generated_Do_seen: "seen (snd (generated_Do e cfg req w)) = seen w"
proof -
  have "seen (snd (ensureValidToken e cfg w)) = seen w"
    by (simp add: ensureValidToken_def authenticate_seen)
  then have 1: "seen (snd (authRequestEditor e cfg req w)) = seen w"
    by (auto simp: authRequestEditor_def split: prod.splits option.splits)
  obtain r w1 where a: "authRequestEditor e cfg req w = (r, w1)"
    by (cases "authRequestEditor e cfg req w")
  with 1 have "seen w1 = seen w" by simp
  with a show ?thesis
    by (cases r) (simp_all add: generated_Do_def Do_seen)
qed

lemma attempt_progress:
  assumes dst: "\<And>p v. seen (snd (dst p v)) = seen v"
      and g: "generated_DownloadFile e cfg productID deliveryID fileID w = (Inr resp, w1)"
      and ok: "StatusCode resp = 200"
  shows "\<exists>cs. seen (snd (DownloadFileWithProgress_fn e cfg productID deliveryID fileID dst
                            (Some record_progress) w))
                  = seen w @ map (\<lambda>c. (c, ContentLength resp)) cs
               \<and> cs \<noteq> [] \<and> sorted (0 # cs)
               \<and> (fst (DownloadFileWithProgress_fn e cfg productID deliveryID fileID dst
                            (Some record_progress) w) = Inr ()
                    \<longrightarrow> last cs = int (length (fst (ReadAll (Body resp)))))"
proof -
  let ?src = "ProgressReader \<lparr>reader = Body resp, total = ContentLength resp, current = 0,
                              progressFn = Some record_progress\<rparr>"
  have "seen (snd (generated_DownloadFile e cfg productID deliveryID fileID w)) = seen w"
    unfolding generated_DownloadFile_def by (rule generated_Do_seen)
  then have s1: "seen w1 = seen w"
    unfolding g by simp
  from io_Copy_progress [OF dst, where b = "Body resp" and T = "ContentLength resp" and c = 0,
      THEN spec [where x = w1]]
  obtain cs where all: "seen (snd (io_Copy dst ?src w1)) = seen w1 @ map (\<lambda>x. (x, ContentLength resp)) cs
       \<and> cs \<noteq> [] \<and> sorted (0 # cs)
       \<and> (fst (io_Copy dst ?src w1) = None \<longrightarrow> last cs = 0 + int (length (fst (ReadAll (Body resp)))))"
    ..
  have fn: "DownloadFileWithProgress_fn e cfg productID deliveryID fileID dst (Some record_progress) w
          = (case io_Copy dst ?src w1 of (Some err, w2) \<Rightarrow> (Inl err, w2) | (None, w2) \<Rightarrow> (Inr (), w2))"
    using g ok by (simp add: DownloadFileWithProgress_fn_def)
  have "seen (snd (DownloadFileWithProgress_fn e cfg productID deliveryID fileID dst (Some record_progress) w))
          = seen (snd (io_Copy dst ?src w1))"
    "fst (DownloadFileWithProgress_fn e cfg productID deliveryID fileID dst (Some record_progress) w) = Inr ()
       \<longleftrightarrow> fst (io_Copy dst ?src w1) = None"
    unfolding fn by (auto split: prod.splits option.splits)
  with all s1 show ?thesis
    by (intro exI [of _ cs]) simp
qed

lemma attempt_success:
  assumes "DownloadFileWithProgress_fn e cfg productID deliveryID fileID dst progress v = (Inr (), w')"
  shows "\<exists>resp v1. generated_DownloadFile e cfg productID deliveryID fileID v = (Inr resp, v1)
                   \<and> StatusCode resp = 200"
  using assms
  by (auto simp: DownloadFileWithProgress_fn_def split: prod.splits sum.splits if_splits)

lemma download_last_report:
  assumes dst: "\<And>p v. seen (snd (dst p v)) = seen v"
      and run: "DownloadFileWithProgress e cfg productID deliveryID fileID dst (Some record_progress) w0
                  = (Inr (), w')"
  shows "\<exists>v resp v1. generated_DownloadFile e cfg productID deliveryID fileID v = (Inr resp, v1)
           \<and> StatusCode resp = 200 \<and> seen w' \<noteq> []
           \<and> last (seen w') = (int (length (fst (ReadAll (Body resp)))), ContentLength resp)"
proof -
  let ?fn = "DownloadFileWithProgress_fn e cfg productID deliveryID fileID dst (Some record_progress)"
  from run retryLoop_ends_with_attempt [of cfg ?fn 0 None w0 "()" w']
  obtain v where v: "?fn v = (Inr (), w')"
    by (auto simp: DownloadFileWithProgress_def retryableRequest_def)
  from attempt_success [OF v] obtain resp v1 where
    g: "generated_DownloadFile e cfg productID deliveryID fileID v = (Inr resp, v1)"
    and ok: "StatusCode resp = 200"
    by blast
  from attempt_progress [OF dst g ok] obtain cs where
    all: "seen (snd (?fn v)) = seen v @ map (\<lambda>c. (c, ContentLength resp)) cs
               \<and> cs \<noteq> [] \<and> sorted (0 # cs)
               \<and> (fst (?fn v) = Inr () \<longrightarrow> last cs = int (length (fst (ReadAll (Body resp)))))"
    ..
  from all v have s: "seen w' = seen v @ map (\<lambda>c. (c, ContentLength resp)) cs"
    and ne: "cs \<noteq> []" and l: "last cs = int (length (fst (ReadAll (Body resp))))"
    by simp_all
  from s ne l have "seen w' \<noteq> []"
    "last (seen w') = (int (length (fst (ReadAll (Body resp)))), ContentLength resp)"
    by (simp_all add: last_map)
  with g ok show ?thesis by blast
qed

lemma attempt_segment:
  assumes dst: "\<And>p v. seen (snd (dst p v)) = seen v"
  shows "\<exists>seg. seen (snd (DownloadFileWithProgress_fn e cfg productID deliveryID fileID dst
                            (Some record_progress) v)) = seen v @ seg
               \<and> sorted (map fst seg)"
proof -
  let ?fn = "DownloadFileWithProgress_fn e cfg productID deliveryID fileID dst (Some record_progress)"
  obtain r v1 where g: "generated_DownloadFile e cfg productID deliveryID fileID v = (r, v1)"
    by (cases "generated_DownloadFile e cfg productID deliveryID fileID v")
  have "seen (snd (generated_DownloadFile e cfg productID deliveryID fileID v)) = seen v"
    unfolding generated_DownloadFile_def by (rule generated_Do_seen)
  with g have s1: "seen v1 = seen v" by simp
  have quiet: "seen (snd (?fn v)) = seen v @ [] \<and> sorted (map fst ([] :: (int \<times> int) list))"
    if "r = Inl err \<or> (r = Inr resp \<and> StatusCode resp \<noteq> 200)" for err resp
    using that g s1 by (auto simp: DownloadFileWithProgress_fn_def)
  show ?thesis
  proof (cases r)
    case (Inl err)
    with quiet [of err] show ?thesis by blast
  next
    case (Inr resp)
    show ?thesis
    proof (cases "StatusCode resp = 200")
      case False
      with Inr quiet [of _ resp] show ?thesis by blast
    next
      case True
      from attempt_progress [OF dst g [unfolded Inr] True] obtain cs where
        all: "seen (snd (?fn v)) = seen v @ map (\<lambda>c. (c, ContentLength resp)) cs
               \<and> cs \<noteq> [] \<and> sorted (0 # cs)
               \<and> (fst (?fn v) = Inr () \<longrightarrow> last cs = int (length (fst (ReadAll (Body resp)))))"
        ..
      have "map fst (map (\<lambda>c. (c, ContentLength resp)) cs) = cs"
        by (simp add: comp_def)
      with all have "seen (snd (?fn v)) = seen v @ map (\<lambda>c. (c, ContentLength resp)) cs
               \<and> sorted (map fst (map (\<lambda>c. (c, ContentLength resp)) cs))"
        by simp
      then show ?thesis by (rule exI)
    qed
  qed
qed

lemma retryLoop_segments:
  assumes fn: "\<And>v. \<exists>seg. seen (snd (fn v)) = seen v @ seg \<and> sorted (map fst seg)"
  shows "\<exists>segs. seen (snd (retryLoop cfg fn attempt lastErr w)) = seen w @ concat segs
               \<and> (\<forall>seg \<in> set segs. sorted (map fst seg))
               \<and> int (length segs) \<le> max 0 (MaxRetries cfg + 1 - attempt)"
proof (induction attempt lastErr w rule: retryLoop_induct [of cfg _ fn])
  case (exhausted attempt lastErr w)
  then show ?case by (intro exI [of _ "[]"]) (simp add: retryLoop_exhausted)
next
  case (success attempt lastErr w r w1)
  from fn [of w] success(2) obtain seg where "seen w1 = seen w @ seg" "sorted (map fst seg)"
    by auto
  with success show ?case
    by (intro exI [of _ "[seg]"]) (simp add: retryLoop_success)
next
  case (failure attempt lastErr w err w1)
  from fn [of w] failure(2) obtain seg where seg: "seen w1 = seen w @ seg" "sorted (map fst seg)"
    by auto
  have b: "seen (between_attempts cfg attempt err w1) = seen w1"
    by (simp add: between_attempts_def time_Sleep_def Let_def)
  from failure(3) obtain segs where
    segs: "seen (snd (retryLoop cfg fn (attempt + 1) (Some err) (between_attempts cfg attempt err w1)))
             = seen (between_attempts cfg attempt err w1) @ concat segs"
      "\<forall>seg \<in> set segs. sorted (map fst seg)"
      "int (length segs) \<le> max 0 (MaxRetries cfg + 1 - (attempt + 1))"
    by blast
  have "seen (snd (retryLoop cfg fn attempt lastErr w)) = seen w @ concat (seg # segs)
        \<and> (\<forall>s \<in> set (seg # segs). sorted (map fst s))
        \<and> int (length (seg # segs)) \<le> max 0 (MaxRetries cfg + 1 - attempt)"
    using failure(1,2) seg segs b by (simp add: retryLoop_failure)
  then show ?case by (rule exI)
qed

lemma download_retried:
  "DownloadFileWithProgress
     (lab (on_script [cut_off [''test-'', ''file-''] 17 ''connection reset'',
                      in_chunks [''test-'', ''file-'', ''content'']]))
     anonymous 3 12345 67890 buffer (Some record_progress) (at_noon [] 0)
   = (Inr (),
      (at_noon [] 0)\<lparr>clock := 43201000000000,
        timeline := [Slept 1000000000],
        wire :=
          [\<lparr>Method = ''GET'',
            URL = ''https://publication-bdds.apps.epo.org/bdds/bdds-bff-service/prod/api/products/3/delivery/12345/file/67890/download'',
            Header = [(''User-Agent'', ''PatentDev/BDDS/1.0'')], Form = []\<rparr>,
           \<lparr>Method = ''GET'',
            URL = ''https://publication-bdds.apps.epo.org/bdds/bdds-bff-service/prod/api/products/3/delivery/12345/file/67890/download'',
            Header = [(''User-Agent'', ''PatentDev/BDDS/1.0'')], Form = []\<rparr>],
        sink := ''test-file-test-file-content'',
        seen := [(5, 17), (10, 17), (10, 17), (5, 17), (10, 17), (17, 17), (17, 17)]\<rparr>)"
  by (simp add: DownloadFileWithProgress_def DownloadFileWithProgress_fn_def generated_DownloadFile_def
        run_defs cut_off_def in_chunks_def io_Copy.simps progressReader_Read_def
        record_progress_def buffer_def copy_Write_def)

text \<open>
  C9 (amended).  With a progress callback supplied to a download:
  \<^item> each \<^verbatim>\<open>Read\<close> of the wrapping reader passes on what the wrapped body returned and
    calls the callback, before it returns, with the bytes read so far and the total;
  \<^item> in each download attempt, seen through a callback that records its arguments, the
    calls report the response's \<^verbatim>\<open>ContentLength\<close> as total and counts that never
    decrease, there is at least one call, and when the attempt succeeds the last call
    reports the number of bytes of the body (\<open>N\<close> and \<open>N\<close> for a body of \<open>N\<close> bytes
    with \<^verbatim>\<open>ContentLength\<close> \<open>N\<close>);
  \<^item> a download whose first attempt succeeds is that attempt; and whenever a download
    succeeds, after whatever retries, the callback was called and its last call
    reported the byte count and \<^verbatim>\<open>ContentLength\<close> of the body of a 200 response;
  \<^item> over a whole download (\<open>MaxRetries < 2 ^ 63 - 1\<close>) the counts form at most
    \<open>MaxRetries + 1\<close> runs, one for each attempt, and never decrease within a run: every attempt wraps the body it received
    in a new reader, whose counter starts at zero.
\<close>

theorem progress_reports:
  assumes "\<forall>p v. seen (snd (dst p v)) = seen v"
      and "generated_DownloadFile e cfg productID deliveryID fileID w = (Inr resp, w1)"
      and "StatusCode resp = 200"
  shows "(case body_Read (reader pr) of
            ((p, err), rest) \<Rightarrow>
              progressReader_Read (pr\<lparr>progressFn := Some f\<rparr>) v =
                ((p, err),
                 pr\<lparr>reader := rest, current := current pr + int (length p), progressFn := Some f\<rparr>,
                 f (current pr + int (length p)) (total pr) v))
       \<and> (\<exists>cs. seen (snd (DownloadFileWithProgress_fn e cfg productID deliveryID fileID dst
                            (Some record_progress) w))
                  = seen w @ map (\<lambda>c. (c, ContentLength resp)) cs
               \<and> cs \<noteq> [] \<and> sorted (0 # cs)
               \<and> (fst (DownloadFileWithProgress_fn e cfg productID deliveryID fileID dst
                            (Some record_progress) w) = Inr ()
                    \<longrightarrow> last cs = int (length (fst (ReadAll (Body resp))))))
       \<and> (0 \<le> MaxRetries cfg
            \<and> fst (DownloadFileWithProgress_fn e cfg productID deliveryID fileID dst progress w) = Inr ()
          \<longrightarrow> DownloadFileWithProgress e cfg productID deliveryID fileID dst progress w
                = DownloadFileWithProgress_fn e cfg productID deliveryID fileID dst progress w)
       \<and> (\<forall>w0 w'.
            DownloadFileWithProgress e cfg productID deliveryID fileID dst (Some record_progress) w0
              = (Inr (), w')
            \<longrightarrow> (\<exists>v resp' v1.
                   generated_DownloadFile e cfg productID deliveryID fileID v = (Inr resp', v1)
                   \<and> StatusCode resp' = 200 \<and> seen w' \<noteq> []
                   \<and> last (seen w') = (int (length (fst (ReadAll (Body resp')))), ContentLength resp')))
       \<and> (MaxRetries cfg < 2 ^ 63 - 1 \<longrightarrow>
            (\<forall>w0. \<exists>segs.
               seen (snd (DownloadFileWithProgress e cfg productID deliveryID fileID dst
                            (Some record_progress) w0)) = seen w0 @ concat segs
               \<and> (\<forall>seg \<in> set segs. sorted (map fst seg))
               \<and> int (length segs) \<le> max 0 (MaxRetries cfg + 1)))"
proof (intro conjI)
  show "case body_Read (reader pr) of
            ((p, err), rest) \<Rightarrow>
              progressReader_Read (pr\<lparr>progressFn := Some f\<rparr>) v =
                ((p, err),
                 pr\<lparr>reader := rest, current := current pr + int (length p), progressFn := Some f\<rparr>,
                 f (current pr + int (length p)) (total pr) v)"
    by (simp add: progressReader_Read_def Let_def split: prod.splits)
next
  have dst: "\<And>p v. seen (snd (dst p v)) = seen v" using assms(1) by simp
  show "\<exists>cs. seen (snd (DownloadFileWithProgress_fn e cfg productID deliveryID fileID dst
                            (Some record_progress) w))
                  = seen w @ map (\<lambda>c. (c, ContentLength resp)) cs
               \<and> cs \<noteq> [] \<and> sorted (0 # cs)
               \<and> (fst (DownloadFileWithProgress_fn e cfg productID deliveryID fileID dst
                            (Some record_progress) w) = Inr ()
                    \<longrightarrow> last cs = int (length (fst (ReadAll (Body resp)))))"
    by (rule attempt_progress [OF dst assms(2,3)])
next
  show "0 \<le> MaxRetries cfg
            \<and> fst (DownloadFileWithProgress_fn e cfg productID deliveryID fileID dst progress w) = Inr ()
          \<longrightarrow> DownloadFileWithProgress e cfg productID deliveryID fileID dst progress w
                = DownloadFileWithProgress_fn e cfg productID deliveryID fileID dst progress w"
  proof
    assume a: "0 \<le> MaxRetries cfg
            \<and> fst (DownloadFileWithProgress_fn e cfg productID deliveryID fileID dst progress w) = Inr ()"
    then obtain w2 where
      "DownloadFileWithProgress_fn e cfg productID deliveryID fileID dst progress w = (Inr (), w2)"
      by (cases "DownloadFileWithProgress_fn e cfg productID deliveryID fileID dst progress w") auto
    with a show "DownloadFileWithProgress e cfg productID deliveryID fileID dst progress w
                = DownloadFileWithProgress_fn e cfg productID deliveryID fileID dst progress w"
      by (simp add: DownloadFileWithProgress_def retryableRequest_def retryLoop_success)
  qed
next
  have dst: "\<And>p v. seen (snd (dst p v)) = seen v" using assms(1) by simp
  show "\<forall>w0 w'.
            DownloadFileWithProgress e cfg productID deliveryID fileID dst (Some record_progress) w0
              = (Inr (), w')
            \<longrightarrow> (\<exists>v resp' v1.
                   generated_DownloadFile e cfg productID deliveryID fileID v = (Inr resp', v1)
                   \<and> StatusCode resp' = 200 \<and> seen w' \<noteq> []
                   \<and> last (seen w') = (int (length (fst (ReadAll (Body resp')))), ContentLength resp'))"
    by (intro allI impI) (rule download_last_report [OF dst])
next
  have dst: "\<And>p v. seen (snd (dst p v)) = seen v" using assms(1) by simp
  show "MaxRetries cfg < 2 ^ 63 - 1 \<longrightarrow>
            (\<forall>w0. \<exists>segs.
               seen (snd (DownloadFileWithProgress e cfg productID deliveryID fileID dst
                            (Some record_progress) w0)) = seen w0 @ concat segs
               \<and> (\<forall>seg \<in> set segs. sorted (map fst seg))
               \<and> int (length segs) \<le> max 0 (MaxRetries cfg + 1))"
  proof (intro impI allI)
    fix w0 :: world
    from retryLoop_segments [of "DownloadFileWithProgress_fn e cfg productID deliveryID fileID dst
                         (Some record_progress)" cfg 0 None w0, OF attempt_segment [OF dst]]
    show "\<exists>segs.
            seen (snd (DownloadFileWithProgress e cfg productID deliveryID fileID dst
                         (Some record_progress) w0)) = seen w0 @ concat segs
            \<and> (\<forall>seg \<in> set segs. sorted (map fst seg))
            \<and> int (length segs) \<le> max 0 (MaxRetries cfg + 1)"
      by (simp add: DownloadFileWithProgress_def retryableRequest_def)
  qed
qed

theorem progress_reports_witness:
  "fst (DownloadFileWithProgress (lab (always (in_chunks [''test-'', ''file-'', ''content''])))
          anonymous 3 12345 67890 buffer (Some record_progress) (at_noon [] 0)) = Inr ()
   \<and> seen (snd (DownloadFileWithProgress (lab (always (in_chunks [''test-'', ''file-'', ''content''])))
          anonymous 3 12345 67890 buffer (Some record_progress) (at_noon [] 0)))
       = [(5, 17), (10, 17), (17, 17), (17, 17)]
   \<and> sink (snd (DownloadFileWithProgress (lab (always (in_chunks [''test-'', ''file-'', ''content''])))
          anonymous 3 12345 67890 buffer (Some record_progress) (at_noon [] 0)))
       = ''test-file-content''
   \<and> last (seen (snd (DownloadFileWithProgress (lab (always (in_chunks [''test-'', ''file-'', ''content''])))
          anonymous 3 12345 67890 buffer (Some record_progress) (at_noon [] 0))))
       = (17, 17)"
proof -
  let ?e = "lab (always (in_chunks [''test-'', ''file-'', ''content'']))"
  let ?resp = "\<lparr>StatusCode = 200, ContentLength = 17,
                Body = [(''test-'', None), (''file-'', None), (''content'', None)]\<rparr>"
  let ?fn = "DownloadFileWithProgress_fn ?e anonymous 3 12345 67890 buffer (Some record_progress) (at_noon [] 0)"
  let ?op = "DownloadFileWithProgress ?e anonymous 3 12345 67890 buffer (Some record_progress) (at_noon [] 0)"
  have q: "\<forall>p v. seen (snd (buffer p v)) = seen v" by (simp add: buffer_def)
  have "fst (generated_DownloadFile ?e anonymous 3 12345 67890 (at_noon [] 0)) = Inr ?resp"
    by (simp add: generated_DownloadFile_def run_defs in_chunks_def)
  then have gd: "generated_DownloadFile ?e anonymous 3 12345 67890 (at_noon [] 0)
                   = (Inr ?resp, snd (generated_DownloadFile ?e anonymous 3 12345 67890 (at_noon [] 0)))"
    by (simp add: prod_eq_iff)
  have st: "StatusCode ?resp = 200" by simp
  have run: "fst ?fn = Inr ()" "seen (snd ?fn) = [(5, 17), (10, 17), (17, 17), (17, 17)]"
    "sink (snd ?fn) = ''test-file-content''"
    by (simp_all add: DownloadFileWithProgress_fn_def generated_DownloadFile_def run_defs
          in_chunks_def io_Copy.simps progressReader_Read_def record_progress_def buffer_def
          copy_Write_def)
  have m: "0 \<le> MaxRetries anonymous" by (simp add: anonymous_def subscriber_def)
  note inst = progress_reports [OF q gd st, where progress = "Some record_progress"]
  from inst [THEN conjunct2, THEN conjunct2, THEN conjunct1] run(1) m have same: "?op = ?fn" by simp
  from inst [THEN conjunct2, THEN conjunct1] obtain cs where
    cs: "seen (snd ?fn) = seen (at_noon [] 0) @ map (\<lambda>c. (c, ContentLength ?resp)) cs
         \<and> cs \<noteq> [] \<and> sorted (0 # cs)
         \<and> (fst ?fn = Inr () \<longrightarrow> last cs = int (length (fst (ReadAll (Body ?resp)))))"
    ..
  from cs run(1) have "last (seen (snd ?fn)) = (17, 17)"
    by (simp add: at_noon_def last_map)
  with run show ?thesis unfolding same by simp
qed

text \<open>
  A download whose first attempt breaks off after ten bytes and whose second attempt
  succeeds: the counts the callback sees fall back from 10 to 5, and the writer has
  received the bytes of both attempts.
\<close>

theorem DownloadFileWithProgress_counts_restart:
  "fst (DownloadFileWithProgress
          (lab (on_script [cut_off [''test-'', ''file-''] 17 ''connection reset'',
                           in_chunks [''test-'', ''file-'', ''content'']]))
          anonymous 3 12345 67890 buffer (Some record_progress) (at_noon [] 0)) = Inr ()
   \<and> map fst (seen (snd (DownloadFileWithProgress
          (lab (on_script [cut_off [''test-'', ''file-''] 17 ''connection reset'',
                           in_chunks [''test-'', ''file-'', ''content'']]))
          anonymous 3 12345 67890 buffer (Some record_progress) (at_noon [] 0))))
       = [5, 10, 10, 5, 10, 17, 17]
   \<and> \<not> sorted (map fst (seen (snd (DownloadFileWithProgress
          (lab (on_script [cut_off [''test-'', ''file-''] 17 ''connection reset'',
                           in_chunks [''test-'', ''file-'', ''content'']]))
          anonymous 3 12345 67890 buffer (Some record_progress) (at_noon [] 0)))))
   \<and> sink (snd (DownloadFileWithProgress
          (lab (on_script [cut_off [''test-'', ''file-''] 17 ''connection reset'',
                           in_chunks [''test-'', ''file-'', ''content'']]))
          anonymous 3 12345 67890 buffer (Some record_progress) (at_noon [] 0)))
       = ''test-file-test-file-content''"
  unfolding download_retried by simp

end
